theory Spec2Isabelle
  imports Main "HOL-Library.Word" "HOL-Library.Signed_Division"
begin

unbundle bit_operations_syntax

section \<open>Machine types and failures\<close>

text \<open>
  The interpreter of \<^verbatim>\<open>src/jvm.c\<close> works on fixed-width C integers. They are words here:
  \<^verbatim>\<open>u1\<close>, \<^verbatim>\<open>u2\<close>, \<^verbatim>\<open>u4\<close> of the class-file format, \<^verbatim>\<open>int32_t\<close> stack slots, and
  \<^verbatim>\<open>size_t\<close> (64 bits) for \<^verbatim>\<open>pc\<close> and \<^verbatim>\<open>idx\<close>. The arithmetic is that of the compiled
  interpreter on its two's-complement host: addition, subtraction, multiplication and left
  shifts of \<^verbatim>\<open>int32_t\<close> wrap around, a shift of a 32-bit operand takes its count modulo 32,
  and \<^verbatim>\<open>size_t\<close> arithmetic wraps modulo \<open>2 ^ 64\<close>.
\<close>

type_synonym u1 = "8 word"
type_synonym u2 = "16 word"
type_synonym u4 = "32 word"
type_synonym int32_t = "32 word"
type_synonym size_t = "64 word"

text \<open>
  Three ways in which a run yields no result:
  \<^item> \<open>Assertion_Failure\<close>: an \<^verbatim>\<open>assert\<close> of the source fails and the process aborts;
  \<^item> \<open>Undefined_Behaviour\<close>: the C program leaves its defined behaviour (an array access
    out of bounds, a null pointer, \<^verbatim>\<open>INT_MIN / -1\<close>, on which the host's division traps);
    nothing is known about what happens next;
  \<^item> \<open>Out_Of_Fuel\<close>: the model's step budget is used up (the C loop has no such bound).
\<close>

datatype error = Assertion_Failure | Undefined_Behaviour | Out_Of_Fuel

fun seq :: "error + 'a \<Rightarrow> ('a \<Rightarrow> error + 'b) \<Rightarrow> error + 'b" where
  "seq (Inl e) f = Inl e"
| "seq (Inr v) f = f v"

text \<open>Array reads and writes of C, with the bounds written out.\<close>

definition rd :: "'a list \<Rightarrow> int \<Rightarrow> error + 'a" where
  "rd xs i = (if 0 \<le> i \<and> i < int (length xs) then Inr (xs ! nat i)
              else Inl Undefined_Behaviour)"

definition wr :: "'a list \<Rightarrow> int \<Rightarrow> 'a \<Rightarrow> error + 'a list" where
  "wr xs i v = (if 0 \<le> i \<and> i < int (length xs) then Inr (xs[nat i := v])
                else Inl Undefined_Behaviour)"

section \<open>The class image and the heap\<close>

text \<open>
  Modelled from the spec: \<^verbatim>\<open>read_class.h\<close> is not part of the sources. The class image
  provides a constant pool indexed from 1, whose entries are integer constants, method
  references resolving to a method of the same class, or other tags; and a list of
  methods, each with \<^verbatim>\<open>max_stack\<close>, \<^verbatim>\<open>max_locals\<close>, \<^verbatim>\<open>code_length\<close>, the code bytes and a
  parameter count derived from its descriptor.
\<close>

datatype cp_info = CONSTANT_Integer int32_t | CONSTANT_Methodref nat | CONSTANT_Other

record method_t =
  max_stack :: u2
  max_locals :: u2
  code_length :: u4
  code :: "u1 list"
  n_params :: u2

record class_file_t =
  constant_pool :: "cp_info list"
  methods :: "method_t list"

text \<open>
  Modelled from the spec: \<^verbatim>\<open>find_method_from_index\<close> resolves the method reference at a
  1-based constant-pool index to a method of the same class; \<open>None\<close> is the null pointer.
  The source passes the index as \<^verbatim>\<open>(int16_t)(bytecode[pc + 1] << 8 | bytecode[pc + 2])\<close>; the
  sixteen bits are taken here as the unsigned index they encode.
\<close>

definition find_method_from_index :: "u2 \<Rightarrow> class_file_t \<Rightarrow> method_t option" where
  "find_method_from_index index class =
     (case rd (constant_pool class) (uint index - 1) of
        Inr (CONSTANT_Methodref k) \<Rightarrow>
          (if k < length (methods class) then Some (methods class ! k) else None)
      | _ \<Rightarrow> None)"

text \<open>
  Modelled from the spec: \<^verbatim>\<open>get_number_of_parameters\<close> yields the number of parameter
  slots declared by the method's descriptor.
\<close>

definition get_number_of_parameters :: "method_t \<Rightarrow> u2" where
  "get_number_of_parameters m = n_params m"

text \<open>
  Modelled from the spec: \<^verbatim>\<open>heap.h\<close> is not part of the sources. The heap is a growable
  table of arrays; \<^verbatim>\<open>heap_add\<close> appends an array and returns its index, references being
  issued sequentially from 0; \<^verbatim>\<open>heap_get\<close> returns the array at a reference and is
  undefined for a reference that was never issued.
\<close>

type_synonym heap_t = "int32_t list list"

definition heap_add :: "heap_t \<Rightarrow> int32_t list \<Rightarrow> heap_t \<times> int32_t" where
  "heap_add h a = (h @ [a], word_of_nat (length h))"

definition heap_get :: "heap_t \<Rightarrow> int32_t \<Rightarrow> error + int32_t list" where
  "heap_get h r = rd h (sint r)"

section \<open>Opcodes\<close>

text \<open>
  Modelled from the spec: the enumeration of \<^verbatim>\<open>jvm.h\<close> is not part of the sources. The
  opcode bytes are those of the Java class-file format, which the interpreter reads.
\<close>

named_theorems opcode \<open>values of the opcode bytes\<close>

definition i_nop :: u1 where [opcode]: "i_nop = 0x00"
definition i_iconst_m1 :: u1 where [opcode]: "i_iconst_m1 = 0x02"
definition i_iconst_0 :: u1 where [opcode]: "i_iconst_0 = 0x03"
definition i_iconst_1 :: u1 where [opcode]: "i_iconst_1 = 0x04"
definition i_iconst_2 :: u1 where [opcode]: "i_iconst_2 = 0x05"
definition i_iconst_3 :: u1 where [opcode]: "i_iconst_3 = 0x06"
definition i_iconst_4 :: u1 where [opcode]: "i_iconst_4 = 0x07"
definition i_iconst_5 :: u1 where [opcode]: "i_iconst_5 = 0x08"
definition i_bipush :: u1 where [opcode]: "i_bipush = 0x10"
definition i_sipush :: u1 where [opcode]: "i_sipush = 0x11"
definition i_ldc :: u1 where [opcode]: "i_ldc = 0x12"
definition i_iload :: u1 where [opcode]: "i_iload = 0x15"
definition i_aload :: u1 where [opcode]: "i_aload = 0x19"
definition i_iload_0 :: u1 where [opcode]: "i_iload_0 = 0x1a"
definition i_iload_1 :: u1 where [opcode]: "i_iload_1 = 0x1b"
definition i_iload_2 :: u1 where [opcode]: "i_iload_2 = 0x1c"
definition i_iload_3 :: u1 where [opcode]: "i_iload_3 = 0x1d"
definition i_aload_0 :: u1 where [opcode]: "i_aload_0 = 0x2a"
definition i_aload_1 :: u1 where [opcode]: "i_aload_1 = 0x2b"
definition i_aload_2 :: u1 where [opcode]: "i_aload_2 = 0x2c"
definition i_aload_3 :: u1 where [opcode]: "i_aload_3 = 0x2d"
definition i_iaload :: u1 where [opcode]: "i_iaload = 0x2e"
definition i_istore :: u1 where [opcode]: "i_istore = 0x36"
definition i_astore :: u1 where [opcode]: "i_astore = 0x3a"
definition i_istore_0 :: u1 where [opcode]: "i_istore_0 = 0x3b"
definition i_istore_1 :: u1 where [opcode]: "i_istore_1 = 0x3c"
definition i_istore_2 :: u1 where [opcode]: "i_istore_2 = 0x3d"
definition i_istore_3 :: u1 where [opcode]: "i_istore_3 = 0x3e"
definition i_astore_0 :: u1 where [opcode]: "i_astore_0 = 0x4b"
definition i_astore_1 :: u1 where [opcode]: "i_astore_1 = 0x4c"
definition i_astore_2 :: u1 where [opcode]: "i_astore_2 = 0x4d"
definition i_astore_3 :: u1 where [opcode]: "i_astore_3 = 0x4e"
definition i_iastore :: u1 where [opcode]: "i_iastore = 0x4f"
definition i_dup :: u1 where [opcode]: "i_dup = 0x59"
definition i_iadd :: u1 where [opcode]: "i_iadd = 0x60"
definition i_isub :: u1 where [opcode]: "i_isub = 0x64"
definition i_imul :: u1 where [opcode]: "i_imul = 0x68"
definition i_idiv :: u1 where [opcode]: "i_idiv = 0x6c"
definition i_irem :: u1 where [opcode]: "i_irem = 0x70"
definition i_ineg :: u1 where [opcode]: "i_ineg = 0x74"
definition i_ishl :: u1 where [opcode]: "i_ishl = 0x78"
definition i_ishr :: u1 where [opcode]: "i_ishr = 0x7a"
definition i_iushr :: u1 where [opcode]: "i_iushr = 0x7c"
definition i_iand :: u1 where [opcode]: "i_iand = 0x7e"
definition i_ior :: u1 where [opcode]: "i_ior = 0x80"
definition i_ixor :: u1 where [opcode]: "i_ixor = 0x82"
definition i_iinc :: u1 where [opcode]: "i_iinc = 0x84"
definition i_ifeq :: u1 where [opcode]: "i_ifeq = 0x99"
definition i_ifne :: u1 where [opcode]: "i_ifne = 0x9a"
definition i_iflt :: u1 where [opcode]: "i_iflt = 0x9b"
definition i_ifge :: u1 where [opcode]: "i_ifge = 0x9c"
definition i_ifgt :: u1 where [opcode]: "i_ifgt = 0x9d"
definition i_ifle :: u1 where [opcode]: "i_ifle = 0x9e"
definition i_if_icmpeq :: u1 where [opcode]: "i_if_icmpeq = 0x9f"
definition i_if_icmpne :: u1 where [opcode]: "i_if_icmpne = 0xa0"
definition i_if_icmplt :: u1 where [opcode]: "i_if_icmplt = 0xa1"
definition i_if_icmpge :: u1 where [opcode]: "i_if_icmpge = 0xa2"
definition i_if_icmpgt :: u1 where [opcode]: "i_if_icmpgt = 0xa3"
definition i_if_icmple :: u1 where [opcode]: "i_if_icmple = 0xa4"
definition i_goto :: u1 where [opcode]: "i_goto = 0xa7"
definition i_ireturn :: u1 where [opcode]: "i_ireturn = 0xac"
definition i_areturn :: u1 where [opcode]: "i_areturn = 0xb0"
definition i_return :: u1 where [opcode]: "i_return = 0xb1"
definition i_getstatic :: u1 where [opcode]: "i_getstatic = 0xb2"
definition i_invokevirtual :: u1 where [opcode]: "i_invokevirtual = 0xb6"
definition i_invokestatic :: u1 where [opcode]: "i_invokestatic = 0xb8"
definition i_newarray :: u1 where [opcode]: "i_newarray = 0xbc"
definition i_arraylength :: u1 where [opcode]: "i_arraylength = 0xbe"

section \<open>The state of one activation of \<^verbatim>\<open>execute\<close>\<close>

text \<open>
  The variables of \<^verbatim>\<open>execute\<close> (\<^verbatim>\<open>pc\<close>, \<^verbatim>\<open>idx\<close>, the \<^verbatim>\<open>stack\<close> array of \<^verbatim>\<open>max_stack\<close> slots,
  the caller's \<^verbatim>\<open>locals\<close> array), the heap shared by all activations, and the lines
  printed so far (one \<^verbatim>\<open>int32_t\<close> per line of \<^verbatim>\<open>printf("%i\n")\<close>).
\<close>

record state =
  pc :: size_t
  idx :: size_t
  stack :: "int32_t list"
  locals :: "int32_t list"
  heap :: heap_t
  printed :: "int32_t list"

text \<open>What one pass through the \<^verbatim>\<open>switch\<close> does: go on, return, or call a method.\<close>

datatype action =
  Next state
| Return "int32_t option" state
| Invoke method_t "int32_t list" state

definition fetch :: "method_t \<Rightarrow> size_t \<Rightarrow> error + u1" where
  "fetch m a = rd (code m) (uint a)"

text \<open>\<^verbatim>\<open>bytecode[pc + 1] << 8 | bytecode[pc + 2]\<close>, as 16 bits.\<close>

definition imm16 :: "u1 \<Rightarrow> u1 \<Rightarrow> u2" where
  "imm16 b1 b2 = push_bit 8 (ucast b1) OR ucast b2"

text \<open>\<^verbatim>\<open>(int16_t)(bytecode[pc + 1] << 8 | bytecode[pc + 2])\<close>, converted to \<^verbatim>\<open>size_t\<close> by \<^verbatim>\<open>pc +=\<close>.\<close>

definition branch_offset :: "method_t \<Rightarrow> state \<Rightarrow> error + size_t" where
  "branch_offset m s =
     seq (fetch m (pc s + 1)) (\<lambda>b1.
     seq (fetch m (pc s + 2)) (\<lambda>b2.
     Inr (scast (imm16 b1 b2))))"

text \<open>\<^verbatim>\<open>stack[idx] = v; idx += 1\<close>\<close>

definition push :: "int32_t \<Rightarrow> state \<Rightarrow> error + state" where
  "push v s =
     seq (wr (stack s) (uint (idx s)) v) (\<lambda>st.
     Inr (s\<lparr>stack := st, idx := idx s + 1\<rparr>))"

text \<open>\<^verbatim>\<open>stack[idx - 1]\<close>, \<^verbatim>\<open>stack[idx - 2]\<close>, \<^verbatim>\<open>stack[idx - 3]\<close>: the index is computed in \<^verbatim>\<open>size_t\<close>.\<close>

definition peek :: "state \<Rightarrow> size_t \<Rightarrow> error + int32_t" where
  "peek s k = rd (stack s) (uint (idx s - k))"


section \<open>The instructions\<close>

text \<open>Each definition is one \<^verbatim>\<open>case\<close> of the \<^verbatim>\<open>switch\<close> in \<^verbatim>\<open>execute\<close>, statement by statement.\<close>

definition exec_bipush :: "method_t \<Rightarrow> state \<Rightarrow> error + state" where
  "exec_bipush m s =
     seq (fetch m (pc s + 1)) (\<lambda>b.
     seq (push (scast b) s) (\<lambda>s'.
     Inr (s'\<lparr>pc := pc s + 2\<rparr>)))"

definition exec_iconst :: "u1 \<Rightarrow> state \<Rightarrow> error + state" where
  "exec_iconst instruction s =
     seq (push (scast (instruction - i_iconst_0)) s) (\<lambda>s'.
     Inr (s'\<lparr>pc := pc s + 1\<rparr>))"

definition exec_sipush :: "method_t \<Rightarrow> state \<Rightarrow> error + state" where
  "exec_sipush m s =
     seq (fetch m (pc s + 1)) (\<lambda>b1.
     seq (fetch m (pc s + 2)) (\<lambda>b2.
     seq (push (scast (imm16 b1 b2)) s) (\<lambda>s'.
     Inr (s'\<lparr>pc := pc s + 3\<rparr>))))"

definition exec_ldc :: "class_file_t \<Rightarrow> method_t \<Rightarrow> state \<Rightarrow> error + state" where
  "exec_ldc class m s =
     seq (fetch m (pc s + 1)) (\<lambda>b.
     seq (rd (constant_pool class) (uint b - 1)) (\<lambda>entry.
     case entry of
       CONSTANT_Integer bytes \<Rightarrow>
         seq (push bytes s) (\<lambda>s'. Inr (s'\<lparr>pc := pc s + 2\<rparr>))
     | _ \<Rightarrow> Inl Undefined_Behaviour))"

text \<open>
  The two-operand instructions: where the source has one, the \<^verbatim>\<open>assert\<close> on
  \<^verbatim>\<open>stack[idx - 1]\<close> comes first; then \<^verbatim>\<open>stack[idx - 2] = stack[idx - 2] op stack[idx - 1]\<close>,
  \<^verbatim>\<open>idx -= 1\<close>, \<^verbatim>\<open>pc += 1\<close>. The operator may have no defined result.
\<close>

definition binop :: "(int32_t \<Rightarrow> bool) \<Rightarrow> (int32_t \<Rightarrow> int32_t \<Rightarrow> error + int32_t) \<Rightarrow> state
    \<Rightarrow> error + state" where
  "binop asserted f s =
     seq (peek s 1) (\<lambda>b.
     if \<not> asserted b then Inl Assertion_Failure
     else
     seq (peek s 2) (\<lambda>a.
     seq (f a b) (\<lambda>r.
     seq (wr (stack s) (uint (idx s - 2)) r) (\<lambda>st.
     Inr (s\<lparr>stack := st, idx := idx s - 1, pc := pc s + 1\<rparr>)))))"

text \<open>The instructions without an \<^verbatim>\<open>assert\<close>.\<close>

definition no_assert :: "int32_t \<Rightarrow> bool" where
  "no_assert b = True"

definition INT_MIN :: int32_t where
  "INT_MIN = 0x80000000"

definition INT_MAX :: int32_t where
  "INT_MAX = 0x7fffffff"

text \<open>
  \<^verbatim>\<open>stack[idx - 2] / stack[idx - 1]\<close> and \<^verbatim>\<open>stack[idx - 2] % stack[idx - 1]\<close>, after
  \<^verbatim>\<open>assert(stack[idx - 1] != 0)\<close>. C truncates towards zero (\<open>sdiv\<close>, \<open>smod\<close>); the quotient
  of \<^verbatim>\<open>INT_MIN\<close> by \<open>-1\<close> is not representable and C gives neither \<^verbatim>\<open>/\<close> nor \<^verbatim>\<open>%\<close> a
  result there.
\<close>

definition c_div :: "int32_t \<Rightarrow> int32_t \<Rightarrow> error + int32_t" where
  "c_div a b =
     (if a = INT_MIN \<and> b = - 1 then Inl Undefined_Behaviour
      else Inr (word_of_int (sint a sdiv sint b)))"

definition c_rem :: "int32_t \<Rightarrow> int32_t \<Rightarrow> error + int32_t" where
  "c_rem a b =
     (if a = INT_MIN \<and> b = - 1 then Inl Undefined_Behaviour
      else Inr (word_of_int (sint a smod sint b)))"

text \<open>
  A C shift of a 32-bit operand, after \<^verbatim>\<open>assert(stack[idx - 1] >= 0)\<close>. The source passes
  the count to \<^verbatim>\<open><<\<close> and \<^verbatim>\<open>>>\<close> as it is; the shift of the compiled interpreter uses the
  count modulo 32 (its low five bits), so every count has a result. \<^verbatim>\<open>>>\<close> on \<^verbatim>\<open>int32_t\<close>
  is arithmetic, on \<^verbatim>\<open>(u4)\<close> logical.
\<close>

definition c_shift :: "(nat \<Rightarrow> int32_t \<Rightarrow> int32_t) \<Rightarrow> int32_t \<Rightarrow> int32_t \<Rightarrow> error + int32_t" where
  "c_shift sh a b = Inr (sh (unat b mod 32) a)"

definition exec_ineg :: "state \<Rightarrow> error + state" where
  "exec_ineg s =
     seq (peek s 1) (\<lambda>v.
     seq (wr (stack s) (uint (idx s - 1)) (- 1 * v)) (\<lambda>st.
     Inr (s\<lparr>stack := st, pc := pc s + 1\<rparr>)))"

text \<open>\<^verbatim>\<open>iload\<close>, \<^verbatim>\<open>aload\<close>: \<^verbatim>\<open>stack[idx] = locals[bytecode[pc + 1]]\<close>\<close>

definition exec_load :: "method_t \<Rightarrow> state \<Rightarrow> error + state" where
  "exec_load m s =
     seq (fetch m (pc s + 1)) (\<lambda>b.
     seq (rd (locals s) (uint b)) (\<lambda>v.
     seq (push v s) (\<lambda>s'.
     Inr (s'\<lparr>pc := pc s + 2\<rparr>))))"

text \<open>\<^verbatim>\<open>iload_0\<close> \dots \<^verbatim>\<open>aload_3\<close>: \<^verbatim>\<open>stack[idx] = locals[instruction - i_iload_0]\<close>\<close>

definition exec_load_n :: "u1 \<Rightarrow> u1 \<Rightarrow> state \<Rightarrow> error + state" where
  "exec_load_n instruction base s =
     seq (rd (locals s) (uint instruction - uint base)) (\<lambda>v.
     seq (push v s) (\<lambda>s'.
     Inr (s'\<lparr>pc := pc s + 1\<rparr>)))"

text \<open>\<^verbatim>\<open>istore\<close>, \<^verbatim>\<open>astore\<close>: \<^verbatim>\<open>locals[bytecode[pc + 1]] = stack[idx - 1]\<close>\<close>

definition exec_store :: "method_t \<Rightarrow> state \<Rightarrow> error + state" where
  "exec_store m s =
     seq (fetch m (pc s + 1)) (\<lambda>b.
     seq (peek s 1) (\<lambda>v.
     seq (wr (locals s) (uint b) v) (\<lambda>l.
     Inr (s\<lparr>locals := l, idx := idx s - 1, pc := pc s + 2\<rparr>))))"

definition exec_store_n :: "u1 \<Rightarrow> u1 \<Rightarrow> state \<Rightarrow> error + state" where
  "exec_store_n instruction base s =
     seq (peek s 1) (\<lambda>v.
     seq (wr (locals s) (uint instruction - uint base) v) (\<lambda>l.
     Inr (s\<lparr>locals := l, idx := idx s - 1, pc := pc s + 1\<rparr>)))"

text \<open>\<^verbatim>\<open>locals[bytecode[pc + 1]] += (int8_t) bytecode[pc + 2]\<close>\<close>

definition exec_iinc :: "method_t \<Rightarrow> state \<Rightarrow> error + state" where
  "exec_iinc m s =
     seq (fetch m (pc s + 1)) (\<lambda>b.
     seq (fetch m (pc s + 2)) (\<lambda>c.
     seq (rd (locals s) (uint b)) (\<lambda>v.
     seq (wr (locals s) (uint b) (v + scast c)) (\<lambda>l.
     Inr (s\<lparr>locals := l, pc := pc s + 3\<rparr>)))))"

text \<open>
  \<^verbatim>\<open>ifeq\<close> \dots \<^verbatim>\<open>ifle\<close>: the test reads \<^verbatim>\<open>stack[idx - 1]\<close>; when it holds,
  \<^verbatim>\<open>pc += (int16_t)(...)\<close> and \<^verbatim>\<open>idx -= 1\<close>; otherwise \<^verbatim>\<open>pc += 3\<close> and \<^verbatim>\<open>idx -= 1\<close>.
\<close>

definition exec_if :: "(int \<Rightarrow> bool) \<Rightarrow> method_t \<Rightarrow> state \<Rightarrow> error + state" where
  "exec_if holds m s =
     seq (peek s 1) (\<lambda>v.
     if holds (sint v) then
       seq (branch_offset m s) (\<lambda>off. Inr (s\<lparr>pc := pc s + off, idx := idx s - 1\<rparr>))
     else Inr (s\<lparr>pc := pc s + 3, idx := idx s - 1\<rparr>))"

text \<open>
  \<^verbatim>\<open>if_icmpeq\<close> \dots \<^verbatim>\<open>if_icmple\<close>: the test compares \<^verbatim>\<open>stack[idx - 2]\<close> with
  \<^verbatim>\<open>stack[idx - 1]\<close>; both paths end with \<^verbatim>\<open>idx -= 2\<close>.
\<close>

definition exec_if_icmp :: "(int \<Rightarrow> int \<Rightarrow> bool) \<Rightarrow> method_t \<Rightarrow> state \<Rightarrow> error + state" where
  "exec_if_icmp holds m s =
     seq (peek s 1) (\<lambda>b.
     seq (peek s 2) (\<lambda>a.
     if holds (sint a) (sint b) then
       seq (branch_offset m s) (\<lambda>off. Inr (s\<lparr>pc := pc s + off, idx := idx s - 2\<rparr>))
     else Inr (s\<lparr>pc := pc s + 3, idx := idx s - 2\<rparr>)))"

definition exec_goto :: "method_t \<Rightarrow> state \<Rightarrow> error + state" where
  "exec_goto m s =
     seq (branch_offset m s) (\<lambda>off. Inr (s\<lparr>pc := pc s + off\<rparr>))"

text \<open>\<^verbatim>\<open>idx -= 1; printf("%i\n", stack[idx]); pc += 3\<close>\<close>

definition exec_invokevirtual :: "state \<Rightarrow> error + state" where
  "exec_invokevirtual s =
     seq (peek s 1) (\<lambda>v.
     Inr (s\<lparr>idx := idx s - 1, printed := printed s @ [v], pc := pc s + 3\<rparr>))"

definition exec_dup :: "state \<Rightarrow> error + state" where
  "exec_dup s =
     seq (peek s 1) (\<lambda>v.
     seq (push v s) (\<lambda>s'.
     Inr (s'\<lparr>pc := pc s + 1\<rparr>)))"

text \<open>
  \<^verbatim>\<open>newarray\<close>: \<^verbatim>\<open>assert(stack[idx - 1] >= 0)\<close>, then \<^verbatim>\<open>calloc(stack[idx - 1] + 1, ...)\<close>.
  The sum is an \<^verbatim>\<open>int32_t\<close>: at \<^verbatim>\<open>INT_MAX\<close> it overflows, no block of that size exists and
  \<^verbatim>\<open>new_arr[0]\<close> is written through a null pointer. Otherwise the block holds the length
  and then \<open>n\<close> zeroes, and the type byte \<^verbatim>\<open>bytecode[pc + 1]\<close> is never read.
\<close>

definition exec_newarray :: "state \<Rightarrow> error + state" where
  "exec_newarray s =
     seq (peek s 1) (\<lambda>n.
     if \<not> 0 \<le> sint n then Inl Assertion_Failure
     else if n = INT_MAX then Inl Undefined_Behaviour
     else
       let new_arr = n # replicate (nat (sint n)) 0;
           (h, reference) = heap_add (heap s) new_arr
       in seq (wr (stack s) (uint (idx s - 1)) reference) (\<lambda>st.
          Inr (s\<lparr>stack := st, heap := h, pc := pc s + 2\<rparr>)))"

text \<open>\<^verbatim>\<open>stack[idx - 1] = heap_get(heap, stack[idx - 1])[0]\<close>\<close>

definition exec_arraylength :: "state \<Rightarrow> error + state" where
  "exec_arraylength s =
     seq (peek s 1) (\<lambda>r.
     seq (heap_get (heap s) r) (\<lambda>arr.
     seq (rd arr 0) (\<lambda>n.
     seq (wr (stack s) (uint (idx s - 1)) n) (\<lambda>st.
     Inr (s\<lparr>stack := st, pc := pc s + 1\<rparr>)))))"

text \<open>
  \<^verbatim>\<open>store_arr = heap_get(heap, stack[idx - 3]); store_arr[stack[idx - 2] + 1] = stack[idx - 1]\<close>.
  The array is updated in place, so the heap entry changes.
\<close>

definition exec_iastore :: "state \<Rightarrow> error + state" where
  "exec_iastore s =
     seq (peek s 3) (\<lambda>r.
     seq (heap_get (heap s) r) (\<lambda>store_arr.
     seq (peek s 2) (\<lambda>i.
     seq (peek s 1) (\<lambda>v.
     seq (wr store_arr (sint (i + 1)) v) (\<lambda>arr'.
     seq (wr (heap s) (sint r) arr') (\<lambda>h.
     Inr (s\<lparr>heap := h, pc := pc s + 1, idx := idx s - 3\<rparr>)))))))"

text \<open>\<^verbatim>\<open>stack[idx - 2] = heap_get(heap, stack[idx - 2])[stack[idx - 1] + 1]\<close>\<close>

definition exec_iaload :: "state \<Rightarrow> error + state" where
  "exec_iaload s =
     seq (peek s 2) (\<lambda>r.
     seq (heap_get (heap s) r) (\<lambda>arr.
     seq (peek s 1) (\<lambda>i.
     seq (rd arr (sint (i + 1))) (\<lambda>v.
     seq (wr (stack s) (uint (idx s - 2)) v) (\<lambda>st.
     Inr (s\<lparr>stack := st, idx := idx s - 1, pc := pc s + 1\<rparr>))))))"

text \<open>\<^verbatim>\<open>ireturn\<close>, \<^verbatim>\<open>areturn\<close>: \<^verbatim>\<open>{.has_value = true, .value = stack[idx - 1]}\<close>\<close>

definition exec_return_value :: "state \<Rightarrow> error + action" where
  "exec_return_value s = seq (peek s 1) (\<lambda>v. Inr (Return (Some v) s))"

subsection \<open>\<^verbatim>\<open>invokestatic\<close>\<close>

text \<open>
  \<^verbatim>\<open>for (int32_t i = p - 1; i > -1; i--) { local_queue[i] = stack[idx - 1]; idx -= 1; }\<close>
  The first argument counts the iterations left: with \<open>Suc i\<close> left, the loop variable is \<open>i\<close>.
\<close>

fun pop_args :: "nat \<Rightarrow> int32_t list \<Rightarrow> int32_t list \<Rightarrow> size_t
    \<Rightarrow> error + (int32_t list \<times> size_t)" where
  "pop_args 0 local_queue st ix = Inr (local_queue, ix)"
| "pop_args (Suc i) local_queue st ix =
     seq (rd st (uint (ix - 1))) (\<lambda>v.
     seq (wr local_queue (int i) v) (\<lambda>local_queue'.
     pop_args i local_queue' st (ix - 1)))"

text \<open>
  Up to the recursive call: resolve the method (a null result is dereferenced at once),
  \<^verbatim>\<open>calloc\<close> its locals (all zero), and move the arguments.
\<close>

definition exec_invokestatic :: "class_file_t \<Rightarrow> method_t \<Rightarrow> state \<Rightarrow> error + action" where
  "exec_invokestatic class m s =
     seq (fetch m (pc s + 1)) (\<lambda>b1.
     seq (fetch m (pc s + 2)) (\<lambda>b2.
     case find_method_from_index (imm16 b1 b2) class of
       None \<Rightarrow> Inl Undefined_Behaviour
     | Some method_call \<Rightarrow>
         seq (pop_args (unat (get_number_of_parameters method_call))
                (replicate (unat (max_locals method_call)) 0) (stack s) (idx s))
           (\<lambda>(local_queue, ix).
         Inr (Invoke method_call local_queue (s\<lparr>idx := ix\<rparr>)))))"

text \<open>
  After the call: the heap and the printed lines are those the callee left; a returned
  value is pushed; \<^verbatim>\<open>pc += 3\<close>. The callee's locals are freed.
\<close>

definition invoke_return :: "int32_t option \<Rightarrow> state \<Rightarrow> state \<Rightarrow> error + state" where
  "invoke_return method_call_result callee_end s =
     (let s1 = s\<lparr>heap := heap callee_end, printed := printed callee_end\<rparr> in
      case method_call_result of
        Some v \<Rightarrow> seq (push v s1) (\<lambda>s2. Inr (s2\<lparr>pc := pc s + 3\<rparr>))
      | None \<Rightarrow> Inr (s1\<lparr>pc := pc s + 3\<rparr>))"

section \<open>The dispatch\<close>

definition continue :: "error + state \<Rightarrow> error + action" where
  "continue r = seq r (\<lambda>s. Inr (Next s))"

definition step :: "class_file_t \<Rightarrow> method_t \<Rightarrow> state \<Rightarrow> error + action" where
  "step class m s =
     seq (fetch m (pc s)) (\<lambda>instruction.
     if instruction = i_bipush then continue (exec_bipush m s)
     else if instruction = i_iadd then continue (binop no_assert (\<lambda>a b. Inr (b + a)) s)
     else if instruction = i_return then Inr (Return None s)
     else if instruction = i_getstatic then Inr (Next (s\<lparr>pc := pc s + 3\<rparr>))
     else if instruction = i_invokevirtual then continue (exec_invokevirtual s)
     else if instruction = i_iconst_m1 \<or> instruction = i_iconst_0 \<or> instruction = i_iconst_1
           \<or> instruction = i_iconst_2 \<or> instruction = i_iconst_3 \<or> instruction = i_iconst_4
           \<or> instruction = i_iconst_5 then continue (exec_iconst instruction s)
     else if instruction = i_sipush then continue (exec_sipush m s)
     else if instruction = i_isub then continue (binop no_assert (\<lambda>a b. Inr (a - b)) s)
     else if instruction = i_imul then continue (binop no_assert (\<lambda>a b. Inr (b * a)) s)
     else if instruction = i_idiv then continue (binop (\<lambda>b. b \<noteq> 0) c_div s)
     else if instruction = i_irem then continue (binop (\<lambda>b. b \<noteq> 0) c_rem s)
     else if instruction = i_ineg then continue (exec_ineg s)
     else if instruction = i_ishl then continue (binop (\<lambda>b. 0 \<le> sint b) (c_shift push_bit) s)
     else if instruction = i_ishr then continue (binop (\<lambda>b. 0 \<le> sint b) (c_shift signed_drop_bit) s)
     else if instruction = i_iushr then continue (binop (\<lambda>b. 0 \<le> sint b) (c_shift drop_bit) s)
     else if instruction = i_iand then continue (binop no_assert (\<lambda>a b. Inr (b AND a)) s)
     else if instruction = i_ior then continue (binop no_assert (\<lambda>a b. Inr (b OR a)) s)
     else if instruction = i_ixor then continue (binop no_assert (\<lambda>a b. Inr (b XOR a)) s)
     else if instruction = i_iload then continue (exec_load m s)
     else if instruction = i_istore then continue (exec_store m s)
     else if instruction = i_iinc then continue (exec_iinc m s)
     else if instruction = i_iload_0 \<or> instruction = i_iload_1 \<or> instruction = i_iload_2
           \<or> instruction = i_iload_3 then continue (exec_load_n instruction i_iload_0 s)
     else if instruction = i_istore_0 \<or> instruction = i_istore_1 \<or> instruction = i_istore_2
           \<or> instruction = i_istore_3 then continue (exec_store_n instruction i_istore_0 s)
     else if instruction = i_ldc then continue (exec_ldc class m s)
     else if instruction = i_ifeq then continue (exec_if (\<lambda>v. v = 0) m s)
     else if instruction = i_ifne then continue (exec_if (\<lambda>v. v \<noteq> 0) m s)
     else if instruction = i_iflt then continue (exec_if (\<lambda>v. v < 0) m s)
     else if instruction = i_ifge then continue (exec_if (\<lambda>v. v \<ge> 0) m s)
     else if instruction = i_ifgt then continue (exec_if (\<lambda>v. v > 0) m s)
     else if instruction = i_ifle then continue (exec_if (\<lambda>v. v \<le> 0) m s)
     else if instruction = i_if_icmpeq then continue (exec_if_icmp (\<lambda>a b. b = a) m s)
     else if instruction = i_if_icmpne then continue (exec_if_icmp (\<lambda>a b. b \<noteq> a) m s)
     else if instruction = i_if_icmplt then continue (exec_if_icmp (\<lambda>a b. a < b) m s)
     else if instruction = i_if_icmpge then continue (exec_if_icmp (\<lambda>a b. a \<ge> b) m s)
     else if instruction = i_if_icmpgt then continue (exec_if_icmp (\<lambda>a b. a > b) m s)
     else if instruction = i_if_icmple then continue (exec_if_icmp (\<lambda>a b. a \<le> b) m s)
     else if instruction = i_goto then continue (exec_goto m s)
     else if instruction = i_ireturn then exec_return_value s
     else if instruction = i_invokestatic then exec_invokestatic class m s
     else if instruction = i_nop then Inr (Next (s\<lparr>pc := pc s + 1\<rparr>))
     else if instruction = i_dup then continue (exec_dup s)
     else if instruction = i_newarray then continue (exec_newarray s)
     else if instruction = i_arraylength then continue (exec_arraylength s)
     else if instruction = i_areturn then exec_return_value s
     else if instruction = i_iastore then continue (exec_iastore s)
     else if instruction = i_iaload then continue (exec_iaload s)
     else if instruction = i_aload then continue (exec_load m s)
     else if instruction = i_astore then continue (exec_store m s)
     else if instruction = i_aload_0 \<or> instruction = i_aload_1 \<or> instruction = i_aload_2
           \<or> instruction = i_aload_3 then continue (exec_load_n instruction i_aload_0 s)
     else if instruction = i_astore_0 \<or> instruction = i_astore_1 \<or> instruction = i_astore_2
           \<or> instruction = i_astore_3 then continue (exec_store_n instruction i_astore_0 s)
     else Inr (Next (s\<lparr>pc := pc s + 1\<rparr>)))"

section \<open>\<^verbatim>\<open>execute\<close>\<close>

text \<open>
  The state in which \<^verbatim>\<open>execute\<close> enters its loop: \<^verbatim>\<open>pc = 0\<close>, \<^verbatim>\<open>idx = 0\<close>, a stack of
  \<^verbatim>\<open>max_stack\<close> zeroes from \<^verbatim>\<open>calloc\<close>.
\<close>

definition entry :: "method_t \<Rightarrow> int32_t list \<Rightarrow> heap_t \<Rightarrow> int32_t list \<Rightarrow> state" where
  "entry m ls h out =
     \<lparr>pc = 0, idx = 0, stack = replicate (unat (max_stack m)) 0,
      locals = ls, heap = h, printed = out\<rparr>"

text \<open>
  The \<^verbatim>\<open>while (pc < method->code.code_length)\<close> loop, with the recursive call of
  \<^verbatim>\<open>execute\<close> for \<^verbatim>\<open>invokestatic\<close>. The loop of the source has no bound, so the model
  counts iterations down from a budget and answers \<open>Out_Of_Fuel\<close> when it is used up.
  Leaving the loop at its head is the \<^verbatim>\<open>has_value = false\<close> return after it.
\<close>

primrec run :: "nat \<Rightarrow> class_file_t \<Rightarrow> method_t \<Rightarrow> state \<Rightarrow> error + (int32_t option \<times> state)" where
  "run 0 class m s = Inl Out_Of_Fuel"
| "run (Suc n) class m s =
     (if \<not> uint (pc s) < uint (code_length m) then Inr (None, s)
      else case step class m s of
        Inl e \<Rightarrow> Inl e
      | Inr (Next s') \<Rightarrow> run n class m s'
      | Inr (Return v s') \<Rightarrow> Inr (v, s')
      | Inr (Invoke method_call local_queue s1) \<Rightarrow>
          (case run n class method_call (entry method_call local_queue (heap s1) (printed s1)) of
             Inl e \<Rightarrow> Inl e
           | Inr (method_call_result, callee_end) \<Rightarrow>
               (case invoke_return method_call_result callee_end s1 of
                  Inl e \<Rightarrow> Inl e
                | Inr s2 \<Rightarrow> run n class m s2)))"

text \<open>
  \<^verbatim>\<open>execute(method, locals, class, heap)\<close>: the optional result, with what the run leaves
  in the caller's \<^verbatim>\<open>locals\<close> array, in the heap and on standard output.
\<close>

definition execute :: "nat \<Rightarrow> method_t \<Rightarrow> int32_t list \<Rightarrow> class_file_t \<Rightarrow> heap_t \<Rightarrow> int32_t list
    \<Rightarrow> error + (int32_t option \<times> int32_t list \<times> heap_t \<times> int32_t list)" where
  "execute n method ls class h out =
     (case run n class method (entry method ls h out) of
        Inl e \<Rightarrow> Inl e
      | Inr (r, s) \<Rightarrow> Inr (r, locals s, heap s, printed s))"

section \<open>Vocabulary of the specification\<close>

text \<open>
  The opcodes that have a \<^verbatim>\<open>case\<close> label in the \<^verbatim>\<open>switch\<close>; every other byte takes the
  \<^verbatim>\<open>default\<close> branch.
\<close>

definition implemented :: "u1 set" where
  "implemented = {i_bipush, i_iadd, i_return, i_getstatic, i_invokevirtual, i_iconst_m1, i_iconst_0,
     i_iconst_1, i_iconst_2, i_iconst_3, i_iconst_4, i_iconst_5, i_sipush, i_isub, i_imul, i_idiv,
     i_irem, i_ineg, i_ishl, i_ishr, i_iushr, i_iand, i_ior, i_ixor, i_iload, i_istore, i_iinc,
     i_iload_0, i_iload_1, i_iload_2, i_iload_3, i_istore_0, i_istore_1, i_istore_2, i_istore_3,
     i_ldc, i_ifeq, i_ifne, i_iflt, i_ifge, i_ifgt, i_ifle, i_if_icmpeq, i_if_icmpne, i_if_icmplt,
     i_if_icmpge, i_if_icmpgt, i_if_icmple, i_goto, i_ireturn, i_invokestatic, i_nop, i_dup,
     i_newarray, i_arraylength, i_areturn, i_iastore, i_iaload, i_aload, i_astore, i_aload_0,
     i_aload_1, i_aload_2, i_aload_3, i_astore_0, i_astore_1, i_astore_2, i_astore_3}"

text \<open>
  Sign extension as the specification words it: the value of a byte read as a signed
  8-bit number, and of the big-endian pair \<open>b1, b2\<close> read as a signed 16-bit number.
\<close>

definition sign_extend_8 :: "u1 \<Rightarrow> int" where
  "sign_extend_8 b = (if uint b < 128 then uint b else uint b - 256)"

definition sign_extend_16 :: "u1 \<Rightarrow> u1 \<Rightarrow> int" where
  "sign_extend_16 b1 b2 =
     (let u = uint b1 * 256 + uint b2 in if u < 32768 then u else u - 65536)"

text \<open>
  The branch instructions as the specification groups them: \<^verbatim>\<open>ifeq\<close> \dots \<^verbatim>\<open>ifle\<close> pop one
  value and compare it with 0; \<^verbatim>\<open>if_icmpeq\<close> \dots \<^verbatim>\<open>if_icmple\<close> pop \<open>a\<close> then \<open>b\<close> (\<open>b\<close> was
  on top) and branch if \<open>a <cmp> b\<close> holds.
\<close>

definition if_zero_opcodes :: "u1 set" where
  "if_zero_opcodes = {i_ifeq, i_ifne, i_iflt, i_ifge, i_ifgt, i_ifle}"

definition compare_zero :: "u1 \<Rightarrow> int \<Rightarrow> bool" where
  "compare_zero instruction v =
     (if instruction = i_ifeq then v = 0
      else if instruction = i_ifne then v \<noteq> 0
      else if instruction = i_iflt then v < 0
      else if instruction = i_ifge then v \<ge> 0
      else if instruction = i_ifgt then v > 0
      else v \<le> 0)"

definition if_icmp_opcodes :: "u1 set" where
  "if_icmp_opcodes = {i_if_icmpeq, i_if_icmpne, i_if_icmplt, i_if_icmpge, i_if_icmpgt, i_if_icmple}"

definition compare_two :: "u1 \<Rightarrow> int \<Rightarrow> int \<Rightarrow> bool" where
  "compare_two instruction a b =
     (if instruction = i_if_icmpeq then a = b
      else if instruction = i_if_icmpne then a \<noteq> b
      else if instruction = i_if_icmplt then a < b
      else if instruction = i_if_icmpge then a \<ge> b
      else if instruction = i_if_icmpgt then a > b
      else a \<le> b)"




text \<open>
  The locals of a callee as the specification words them: for a caller stack
  \<open>\<dots>, v0, \<dots>, v(p-1)\<close> with \<open>v(p-1)\<close> on top, slot \<open>i\<close> holds \<open>vi\<close> for \<open>i < p\<close>, and the
  remaining slots up to \<^verbatim>\<open>max_locals\<close> are zero.
\<close>

definition marshalled_locals :: "method_t \<Rightarrow> state \<Rightarrow> int32_t list" where
  "marshalled_locals callee s =
     (let p = unat (get_number_of_parameters callee)
      in take p (drop (unat (idx s) - p) (stack s)) @ replicate (unat (max_locals callee) - p) 0)"

text \<open>
  The instruction boundaries of a run: every state in which the \<^verbatim>\<open>while\<close> loop of some
  activation of \<^verbatim>\<open>execute\<close> tests its condition, paired with the method of that
  activation, in the order in which they occur, up to the given number of iterations per
  activation. The recursion is that of \<open>run\<close>; a failing step ends the list.
\<close>

primrec boundaries :: "nat \<Rightarrow> class_file_t \<Rightarrow> method_t \<Rightarrow> state \<Rightarrow> (method_t \<times> state) list" where
  "boundaries 0 class m s = [(m, s)]"
| "boundaries (Suc n) class m s = (m, s) #
     (if \<not> uint (pc s) < uint (code_length m) then []
      else case step class m s of
        Inl e \<Rightarrow> []
      | Inr (Next s') \<Rightarrow> boundaries n class m s'
      | Inr (Return v s') \<Rightarrow> []
      | Inr (Invoke method_call local_queue s1) \<Rightarrow>
          boundaries n class method_call (entry method_call local_queue (heap s1) (printed s1)) @
          (case run n class method_call (entry method_call local_queue (heap s1) (printed s1)) of
             Inl e \<Rightarrow> []
           | Inr (method_call_result, callee_end) \<Rightarrow>
               (case invoke_return method_call_result callee_end s1 of
                  Inl e \<Rightarrow> []
                | Inr s2 \<Rightarrow> boundaries n class m s2)))"

text \<open>The operand-stack depth \<^verbatim>\<open>idx\<close> lies in \<open>[0, k]\<close>, and the stack array has \<open>k\<close> slots.\<close>

definition depth_ok :: "nat \<Rightarrow> state \<Rightarrow> bool" where
  "depth_ok k s = (length (stack s) = k \<and> unat (idx s) \<le> k)"

section \<open>Basic facts\<close>

subsection \<open>Sign extension\<close>

lemma centred_mod:
  fixes u k :: int
  assumes "0 \<le> u" "u < 2 * k"
  shows "(u + k) mod (2 * k) - k = (if u < k then u else u - 2 * k)"
proof (cases "u < k")
  case True
  with assms show ?thesis by (simp add: mod_pos_pos_trivial)
next
  case False
  have "(u + k) mod (2 * k) = (u - k + 2 * k) mod (2 * k)" by (simp add: algebra_simps)
  also have "\<dots> = (u - k) mod (2 * k)" by (simp only: mod_add_self2)
  also have "\<dots> = u - k" using False assms by (simp add: mod_pos_pos_trivial)
  finally show ?thesis using False by simp
qed

lemma sint_u1: "sint (b :: u1) = sign_extend_8 b"
proof -
  have "0 \<le> uint b" "uint b < 2 * 128" using uint_lt2p[of b] by simp_all
  from centred_mod [OF this] show ?thesis
    by (simp add: sign_extend_8_def sint_uint signed_take_bit_eq_take_bit_shift take_bit_eq_mod)
qed

lemma sint_scast_u1: "sint (scast (b :: u1) :: int32_t) = sign_extend_8 b"
  by (simp add: sint_up_scast is_up sint_u1)

lemma uint_imm16: "uint (imm16 b1 b2) = uint b1 * 256 + uint b2"
proof -
  have b: "0 \<le> uint b1" "uint b1 < 256" "0 \<le> uint b2" "uint b2 < 256"
    using uint_lt2p[of b1] uint_lt2p[of b2] by simp_all
  have "imm16 b1 b2 = word_cat b1 b2"
    by (simp add: imm16_def word_cat_eq_push_bit_or)
  then have "uint (imm16 b1 b2) = (uint b1 * 256 + uint b2) mod 65536"
    by (simp add: word_cat_eq uint_word_of_int push_bit_eq_mult take_bit_eq_mod
          uint_word_ariths uint_up_ucast is_up mod_simps)
  also have "\<dots> = uint b1 * 256 + uint b2"
    using b by simp
  finally show ?thesis .
qed

lemma sint_imm16: "sint (imm16 b1 b2) = sign_extend_16 b1 b2"
proof -
  have "0 \<le> uint (imm16 b1 b2)" "uint (imm16 b1 b2) < 2 * 32768"
    using uint_lt2p[of "imm16 b1 b2"] by simp_all
  from centred_mod [OF this] show ?thesis
    by (simp add: sign_extend_16_def sint_uint signed_take_bit_eq_take_bit_shift take_bit_eq_mod
          Let_def uint_imm16)
qed

lemma sint_scast_imm16: "sint (scast (imm16 b1 b2) :: int32_t) = sign_extend_16 b1 b2"
  by (simp add: sint_up_scast is_up sint_imm16)

lemma scast_imm16_size_t: "(scast (imm16 b1 b2) :: size_t) = word_of_int (sign_extend_16 b1 b2)"
  unfolding sint_imm16 [symmetric] by (rule scast_eq)

lemma branch_offset_eq:
  "fetch m (pc s + 1) = Inr b1 \<Longrightarrow> fetch m (pc s + 2) = Inr b2 \<Longrightarrow>
   branch_offset m s = Inr (word_of_int (sign_extend_16 b1 b2))"
  by (simp add: branch_offset_def scast_imm16_size_t)

subsection \<open>Dispatch and stack access\<close>

lemma step_bipush: "fetch m (pc s) = Inr i_bipush \<Longrightarrow> step class m s = continue (exec_bipush m s)"
  by (simp add: step_def opcode)

lemma step_sipush: "fetch m (pc s) = Inr i_sipush \<Longrightarrow> step class m s = continue (exec_sipush m s)"
  by (simp add: step_def opcode)

lemma push_ok:
  "uint (idx s) < int (length (stack s)) \<Longrightarrow>
   push v s = Inr (s\<lparr>stack := (stack s)[unat (idx s) := v], idx := idx s + 1\<rparr>)"
  by (simp add: push_def wr_def)

section \<open>Unknown opcodes\<close>

text \<open>
  Claim C9. A byte that is not one of the opcodes handled by the \<^verbatim>\<open>switch\<close> takes the
  \<^verbatim>\<open>default\<close> branch: \<^verbatim>\<open>pc\<close> advances by 1 and nothing else changes (stack, depth,
  locals, heap and printed lines are those of before); the step never fails.
\<close>

theorem unknown_opcode_is_nop:
  assumes "fetch m (pc s) = Inr instruction" and "instruction \<notin> implemented"
  shows "step class m s = Inr (Next (s\<lparr>pc := pc s + 1\<rparr>))"
  using assms by (simp add: step_def implemented_def)

theorem unknown_opcode_is_nop_witness:
  "step \<lparr>constant_pool = [], methods = []\<rparr>
     \<lparr>max_stack = 1, max_locals = 1, code_length = 2, code = [0x01, 0xb1], n_params = 0\<rparr>
     \<lparr>pc = 0, idx = 1, stack = [7], locals = [9], heap = [[1, 5]], printed = [3]\<rparr>
   = Inr (Next \<lparr>pc = 1, idx = 1, stack = [7], locals = [9], heap = [[1, 5]], printed = [3]\<rparr>)"
  using unknown_opcode_is_nop [of
     "\<lparr>max_stack = 1, max_locals = 1, code_length = 2, code = [0x01, 0xb1], n_params = 0\<rparr>"
     "\<lparr>pc = 0, idx = 1, stack = [7], locals = [9], heap = [[1, 5]], printed = [3]\<rparr>"
     "0x01" "\<lparr>constant_pool = [], methods = []\<rparr>"]
  by (simp add: fetch_def rd_def implemented_def opcode)

section \<open>\<^verbatim>\<open>bipush\<close> and \<^verbatim>\<open>sipush\<close>\<close>

text \<open>
  Claim C8. \<^verbatim>\<open>bipush b\<close> pushes the byte \<open>b\<close> sign-extended from 8 bits and advances
  \<^verbatim>\<open>pc\<close> by 2; \<^verbatim>\<open>sipush b1 b2\<close> pushes the big-endian pair sign-extended from 16 bits and
  advances \<^verbatim>\<open>pc\<close> by 3. The pushed slot reads back, as a signed 32-bit number, exactly the
  sign-extended value, so the extremes \<open>-128\<close>, \<open>127\<close>, \<open>-32768\<close>, \<open>32767\<close> are kept.
\<close>

theorem bipush_sipush_sign_extend:
  "(fetch m (pc s) = Inr i_bipush \<longrightarrow> fetch m (pc s + 1) = Inr b \<longrightarrow>
      uint (idx s) < int (length (stack s)) \<longrightarrow>
        step class m s = Inr (Next (s\<lparr>stack := (stack s)[unat (idx s) := word_of_int (sign_extend_8 b)],
                                       idx := idx s + 1, pc := pc s + 2\<rparr>))
        \<and> sint (word_of_int (sign_extend_8 b) :: int32_t) = sign_extend_8 b)
   \<and> (fetch m (pc s) = Inr i_sipush \<longrightarrow> fetch m (pc s + 1) = Inr b1 \<longrightarrow>
      fetch m (pc s + 2) = Inr b2 \<longrightarrow> uint (idx s) < int (length (stack s)) \<longrightarrow>
        step class m s = Inr (Next (s\<lparr>stack := (stack s)[unat (idx s) := word_of_int (sign_extend_16 b1 b2)],
                                       idx := idx s + 1, pc := pc s + 3\<rparr>))
        \<and> sint (word_of_int (sign_extend_16 b1 b2) :: int32_t) = sign_extend_16 b1 b2)"
proof -
  have v8: "(scast b :: int32_t) = word_of_int (sign_extend_8 b)"
    unfolding sint_u1 [symmetric] by (rule scast_eq)
  have v16: "(scast (imm16 b1 b2) :: int32_t) = word_of_int (sign_extend_16 b1 b2)"
    unfolding sint_imm16 [symmetric] by (rule scast_eq)
  have s8: "sint (word_of_int (sign_extend_8 b) :: int32_t) = sign_extend_8 b"
    using sint_scast_u1 [of b] by (simp only: v8)
  have s16: "sint (word_of_int (sign_extend_16 b1 b2) :: int32_t) = sign_extend_16 b1 b2"
    using sint_scast_imm16 [of b1 b2] by (simp only: v16)
  show ?thesis
    by (simp add: step_bipush step_sipush exec_bipush_def exec_sipush_def push_ok continue_def
          v8 v16 s8 s16)
qed

theorem bipush_sipush_sign_extend_witness:
  "step \<lparr>constant_pool = [], methods = []\<rparr>
     \<lparr>max_stack = 2, max_locals = 0, code_length = 5, code = [0x10, 0x80, 0x11, 0x80, 0x00], n_params = 0\<rparr>
     \<lparr>pc = 0, idx = 0, stack = [0, 0], locals = [], heap = [], printed = []\<rparr>
   = Inr (Next \<lparr>pc = 2, idx = 1, stack = [- 128, 0], locals = [], heap = [], printed = []\<rparr>)
   \<and> step \<lparr>constant_pool = [], methods = []\<rparr>
     \<lparr>max_stack = 2, max_locals = 0, code_length = 5, code = [0x10, 0x80, 0x11, 0x80, 0x00], n_params = 0\<rparr>
     \<lparr>pc = 2, idx = 1, stack = [- 128, 0], locals = [], heap = [], printed = []\<rparr>
   = Inr (Next \<lparr>pc = 5, idx = 2, stack = [- 128, - 32768], locals = [], heap = [], printed = []\<rparr>)"
  using bipush_sipush_sign_extend [of
     "\<lparr>max_stack = 2, max_locals = 0, code_length = 5, code = [0x10, 0x80, 0x11, 0x80, 0x00], n_params = 0\<rparr>"
     "\<lparr>pc = 0, idx = 0, stack = [0, 0], locals = [], heap = [], printed = []\<rparr>"
     "0x80" "\<lparr>constant_pool = [], methods = []\<rparr>" "0x80" "0x00"]
   bipush_sipush_sign_extend [of
     "\<lparr>max_stack = 2, max_locals = 0, code_length = 5, code = [0x10, 0x80, 0x11, 0x80, 0x00], n_params = 0\<rparr>"
     "\<lparr>pc = 2, idx = 1, stack = [- 128, 0], locals = [], heap = [], printed = []\<rparr>"
     "0x80" "\<lparr>constant_pool = [], methods = []\<rparr>" "0x80" "0x00"]
  by (simp add: fetch_def rd_def opcode sign_extend_8_def sign_extend_16_def)

section \<open>Branches\<close>

subsection \<open>Operands on the stack, and the branch steps\<close>

lemma peek_bounds:
  "peek s k = Inr v \<Longrightarrow> uint (idx s - k) < int (length (stack s)) \<and> v = stack s ! unat (idx s - k)"
  by (simp add: peek_def rd_def split: if_splits)

lemma wr_peeked:
  "peek s k = Inr v \<Longrightarrow> wr (stack s) (uint (idx s - k)) r = Inr ((stack s)[unat (idx s - k) := r])"
  by (simp add: peek_def rd_def wr_def split: if_splits)

lemma binop_eq:
  "peek s 1 = Inr b \<Longrightarrow> peek s 2 = Inr a \<Longrightarrow>
   binop asserted f s =
     (if \<not> asserted b then Inl Assertion_Failure
      else seq (f a b) (\<lambda>r.
        Inr (s\<lparr>stack := (stack s)[unat (idx s - 2) := r], idx := idx s - 1, pc := pc s + 1\<rparr>)))"
  by (cases "f a b") (simp_all add: binop_def wr_peeked)

lemma binop_assert:
  "peek s 1 = Inr b \<Longrightarrow> \<not> asserted b \<Longrightarrow> binop asserted f s = Inl Assertion_Failure"
  by (simp add: binop_def)

lemma step_if_zero:
  "fetch m (pc s) = Inr instruction \<Longrightarrow> instruction \<in> if_zero_opcodes \<Longrightarrow>
   step class m s = continue (exec_if (compare_zero instruction) m s)"
  unfolding if_zero_opcodes_def
  by (auto simp add: step_def opcode compare_zero_def [abs_def])

lemma step_if_icmp:
  "fetch m (pc s) = Inr instruction \<Longrightarrow> instruction \<in> if_icmp_opcodes \<Longrightarrow>
   step class m s = continue (exec_if_icmp (compare_two instruction) m s)"
  unfolding if_icmp_opcodes_def
  by (auto simp add: step_def opcode compare_two_def [abs_def] eq_commute)

lemma step_goto:
  "fetch m (pc s) = Inr i_goto \<Longrightarrow> step class m s = continue (exec_goto m s)"
  by (simp add: step_def opcode)

lemma if_zero_eq:
  assumes "fetch m (pc s) = Inr instruction" "instruction \<in> if_zero_opcodes" "peek s 1 = Inr v"
    and "compare_zero instruction (sint v) \<Longrightarrow> fetch m (pc s + 1) = Inr b1 \<and> fetch m (pc s + 2) = Inr b2"
  shows "step class m s = Inr (Next (s\<lparr>pc := (if compare_zero instruction (sint v)
            then pc s + word_of_int (sign_extend_16 b1 b2) else pc s + 3), idx := idx s - 1\<rparr>))"
  using assms by (simp add: step_if_zero exec_if_def continue_def branch_offset_eq)

lemma if_icmp_eq:
  assumes "fetch m (pc s) = Inr instruction" "instruction \<in> if_icmp_opcodes"
    "peek s 2 = Inr a" "peek s 1 = Inr b"
    and "compare_two instruction (sint a) (sint b) \<Longrightarrow> fetch m (pc s + 1) = Inr b1 \<and> fetch m (pc s + 2) = Inr b2"
  shows "step class m s = Inr (Next (s\<lparr>pc := (if compare_two instruction (sint a) (sint b)
            then pc s + word_of_int (sign_extend_16 b1 b2) else pc s + 3), idx := idx s - 2\<rparr>))"
  using assms by (simp add: step_if_icmp exec_if_icmp_def continue_def branch_offset_eq)

lemma goto_eq:
  assumes "fetch m (pc s) = Inr i_goto" "fetch m (pc s + 1) = Inr b1" "fetch m (pc s + 2) = Inr b2"
  shows "step class m s = Inr (Next (s\<lparr>pc := pc s + word_of_int (sign_extend_16 b1 b2)\<rparr>))"
  using assms by (simp add: step_goto exec_goto_def continue_def branch_offset_eq)


subsection \<open>Where a branch goes\<close>

text \<open>
  Claim C3. For each branch instruction the 16-bit big-endian immediate is sign-extended
  and, when the branch is taken, added to the address of the branch opcode itself (the
  \<^verbatim>\<open>pc\<close> the instruction was fetched at); when it is not taken \<^verbatim>\<open>pc\<close> advances by 3. The
  conditional forms drop their one operand (\<^verbatim>\<open>ifeq\<close> \dots \<^verbatim>\<open>ifle\<close>) or two operands
  (\<^verbatim>\<open>if_icmpeq\<close> \dots \<^verbatim>\<open>if_icmple\<close>) on both paths; \<^verbatim>\<open>goto\<close> leaves the stack alone.
\<close>

theorem branch_target_from_opcode_address:
  "(fetch m (pc s) = Inr instruction \<longrightarrow> instruction \<in> if_zero_opcodes \<longrightarrow> peek s 1 = Inr v \<longrightarrow>
      (compare_zero instruction (sint v) \<longrightarrow>
         fetch m (pc s + 1) = Inr b1 \<and> fetch m (pc s + 2) = Inr b2) \<longrightarrow>
      step class m s = Inr (Next (s\<lparr>pc := (if compare_zero instruction (sint v)
            then pc s + word_of_int (sign_extend_16 b1 b2) else pc s + 3), idx := idx s - 1\<rparr>)))
   \<and> (fetch m (pc s) = Inr instruction \<longrightarrow> instruction \<in> if_icmp_opcodes \<longrightarrow>
      peek s 2 = Inr a \<longrightarrow> peek s 1 = Inr b \<longrightarrow>
      (compare_two instruction (sint a) (sint b) \<longrightarrow>
         fetch m (pc s + 1) = Inr b1 \<and> fetch m (pc s + 2) = Inr b2) \<longrightarrow>
      step class m s = Inr (Next (s\<lparr>pc := (if compare_two instruction (sint a) (sint b)
            then pc s + word_of_int (sign_extend_16 b1 b2) else pc s + 3), idx := idx s - 2\<rparr>)))
   \<and> (fetch m (pc s) = Inr i_goto \<longrightarrow> fetch m (pc s + 1) = Inr b1 \<longrightarrow>
      fetch m (pc s + 2) = Inr b2 \<longrightarrow>
      step class m s = Inr (Next (s\<lparr>pc := pc s + word_of_int (sign_extend_16 b1 b2)\<rparr>)))"
  using if_zero_eq [of m s instruction v b1 b2 "class"]
    if_icmp_eq [of m s instruction a b b1 b2 "class"]
    goto_eq [of m s b1 b2 "class"]
  by blast

text \<open>
  A loop tail: at address 4, \<^verbatim>\<open>ifne -3\<close> with 1 on the stack goes back to address 1, and
  with 0 on the stack goes on to address 7; \<^verbatim>\<open>if_icmplt +4\<close> at address 7 with 2, 5 goes to
  11; \<^verbatim>\<open>goto -11\<close> at address 11 goes to 0.
\<close>

theorem branch_target_from_opcode_address_witness:
  "step \<lparr>constant_pool = [], methods = []\<rparr>
     \<lparr>max_stack = 2, max_locals = 0, code_length = 14,
      code = [0, 0, 0, 0, 0x9a, 0xff, 0xfd, 0xa1, 0, 4, 0, 0xa7, 0xff, 0xf5], n_params = 0\<rparr>
     \<lparr>pc = 4, idx = 1, stack = [1, 0], locals = [], heap = [], printed = []\<rparr>
   = Inr (Next \<lparr>pc = 1, idx = 0, stack = [1, 0], locals = [], heap = [], printed = []\<rparr>)
   \<and> step \<lparr>constant_pool = [], methods = []\<rparr>
     \<lparr>max_stack = 2, max_locals = 0, code_length = 14,
      code = [0, 0, 0, 0, 0x9a, 0xff, 0xfd, 0xa1, 0, 4, 0, 0xa7, 0xff, 0xf5], n_params = 0\<rparr>
     \<lparr>pc = 4, idx = 1, stack = [0, 0], locals = [], heap = [], printed = []\<rparr>
   = Inr (Next \<lparr>pc = 7, idx = 0, stack = [0, 0], locals = [], heap = [], printed = []\<rparr>)
   \<and> step \<lparr>constant_pool = [], methods = []\<rparr>
     \<lparr>max_stack = 2, max_locals = 0, code_length = 14,
      code = [0, 0, 0, 0, 0x9a, 0xff, 0xfd, 0xa1, 0, 4, 0, 0xa7, 0xff, 0xf5], n_params = 0\<rparr>
     \<lparr>pc = 7, idx = 2, stack = [2, 5], locals = [], heap = [], printed = []\<rparr>
   = Inr (Next \<lparr>pc = 11, idx = 0, stack = [2, 5], locals = [], heap = [], printed = []\<rparr>)
   \<and> step \<lparr>constant_pool = [], methods = []\<rparr>
     \<lparr>max_stack = 2, max_locals = 0, code_length = 14,
      code = [0, 0, 0, 0, 0x9a, 0xff, 0xfd, 0xa1, 0, 4, 0, 0xa7, 0xff, 0xf5], n_params = 0\<rparr>
     \<lparr>pc = 11, idx = 0, stack = [2, 5], locals = [], heap = [], printed = []\<rparr>
   = Inr (Next \<lparr>pc = 0, idx = 0, stack = [2, 5], locals = [], heap = [], printed = []\<rparr>)"
  using branch_target_from_opcode_address [of
     "\<lparr>max_stack = 2, max_locals = 0, code_length = 14,
      code = [0, 0, 0, 0, 0x9a, 0xff, 0xfd, 0xa1, 0, 4, 0, 0xa7, 0xff, 0xf5], n_params = 0\<rparr>"
     "\<lparr>pc = 4, idx = 1, stack = [1, 0], locals = [], heap = [], printed = []\<rparr>"
     "0x9a" 1 "0xff" "0xfd" "\<lparr>constant_pool = [], methods = []\<rparr>" 0 0]
   branch_target_from_opcode_address [of
     "\<lparr>max_stack = 2, max_locals = 0, code_length = 14,
      code = [0, 0, 0, 0, 0x9a, 0xff, 0xfd, 0xa1, 0, 4, 0, 0xa7, 0xff, 0xf5], n_params = 0\<rparr>"
     "\<lparr>pc = 4, idx = 1, stack = [0, 0], locals = [], heap = [], printed = []\<rparr>"
     "0x9a" 0 "0xff" "0xfd" "\<lparr>constant_pool = [], methods = []\<rparr>" 0 0]
   branch_target_from_opcode_address [of
     "\<lparr>max_stack = 2, max_locals = 0, code_length = 14,
      code = [0, 0, 0, 0, 0x9a, 0xff, 0xfd, 0xa1, 0, 4, 0, 0xa7, 0xff, 0xf5], n_params = 0\<rparr>"
     "\<lparr>pc = 7, idx = 2, stack = [2, 5], locals = [], heap = [], printed = []\<rparr>"
     "0xa1" 5 "0x00" "0x04" "\<lparr>constant_pool = [], methods = []\<rparr>" 2 5]
   branch_target_from_opcode_address [of
     "\<lparr>max_stack = 2, max_locals = 0, code_length = 14,
      code = [0, 0, 0, 0, 0x9a, 0xff, 0xfd, 0xa1, 0, 4, 0, 0xa7, 0xff, 0xf5], n_params = 0\<rparr>"
     "\<lparr>pc = 11, idx = 0, stack = [2, 5], locals = [], heap = [], printed = []\<rparr>"
     "0xa7" 0 "0xff" "0xf5" "\<lparr>constant_pool = [], methods = []\<rparr>" 0 0]
  by (simp add: fetch_def rd_def peek_def opcode if_zero_opcodes_def if_icmp_opcodes_def
        compare_zero_def compare_two_def sign_extend_16_def)

section \<open>Branch targets outside the code array\<close>

lemma sign_extend_16_range: "- 32768 \<le> sign_extend_16 b1 b2 \<and> sign_extend_16 b1 b2 < 32768"
proof -
  have "0 \<le> uint b1" "uint b1 < 256" "0 \<le> uint b2" "uint b2 < 256"
    using uint_lt2p[of b1] uint_lt2p[of b2] by simp_all
  then have "0 \<le> uint b1 * 256 + uint b2" "uint b1 * 256 + uint b2 < 65536"
    by linarith+
  then show ?thesis
    unfolding sign_extend_16_def Let_def by (split if_split) linarith
qed

lemma target_outside_leaves_loop:
  fixes p :: size_t and len :: u4 and off :: int
  assumes "uint p < uint len" "- 32768 \<le> off" "off < 32768"
    and "uint p + off < 0 \<or> uint len \<le> uint p + off"
  shows "\<not> uint (p + word_of_int off) < uint len"
proof -
  have len: "uint len < 4294967296" using uint_lt2p[of len] by simp
  have eq: "uint (p + word_of_int off) = (uint p + off) mod 18446744073709551616"
    by (simp add: uint_word_ariths uint_word_of_int mod_simps)
  show ?thesis
  proof (cases "uint p + off < 0")
    case True
    have "(uint p + off) mod 18446744073709551616 = (uint p + off + 18446744073709551616) mod 18446744073709551616"
      by simp
    also have "\<dots> = uint p + off + 18446744073709551616"
    proof (rule mod_pos_pos_trivial)
      show "0 \<le> uint p + off + 18446744073709551616"
        using uint_ge_0 [of p] assms(2) by linarith
      show "uint p + off + 18446744073709551616 < 18446744073709551616"
        using True by linarith
    qed
    finally have "uint (p + word_of_int off) = uint p + off + 18446744073709551616"
      using eq by simp
    then show ?thesis using uint_ge_0 [of p] assms(2) len by linarith
  next
    case False
    then have "(uint p + off) mod 18446744073709551616 = uint p + off"
      using assms len by (intro mod_pos_pos_trivial) linarith+
    with False assms eq show ?thesis by simp
  qed
qed

lemma run_leaves_loop:
  "uint (pc s) < uint (code_length m) \<Longrightarrow> step class m s = Inr (Next s') \<Longrightarrow>
   \<not> uint (pc s') < uint (code_length m) \<Longrightarrow> run (Suc (Suc n)) class m s = Inr (None, s')"
  by simp

text \<open>
  Claim C2, as amended. The source has no check of a branch target: \<^verbatim>\<open>pc += (int16_t)(...)\<close>
  is computed in \<^verbatim>\<open>size_t\<close>, and the only test of \<^verbatim>\<open>pc\<close> is the loop head
  \<^verbatim>\<open>while (pc < method->code.code_length)\<close>. So when a \<^verbatim>\<open>goto\<close> or a taken conditional
  branch computes a target outside \<open>[0, code_length)\<close> (a target below 0 wraps to a number
  above any code length), the loop ends at its head and \<^verbatim>\<open>execute\<close> returns void normally,
  with the locals, heap and printed lines as they were at the branch. It is not a fault.
\<close>

theorem branch_outside_code_returns_void:
  assumes "uint (pc s) < uint (code_length m)"
    and "fetch m (pc s) = Inr instruction"
    and "fetch m (pc s + 1) = Inr b1" and "fetch m (pc s + 2) = Inr b2"
    and "instruction = i_goto \<and> s' = s\<lparr>pc := pc s + word_of_int (sign_extend_16 b1 b2)\<rparr>
       \<or> instruction \<in> if_zero_opcodes \<and> peek s 1 = Inr v \<and> compare_zero instruction (sint v)
           \<and> s' = s\<lparr>pc := pc s + word_of_int (sign_extend_16 b1 b2), idx := idx s - 1\<rparr>
       \<or> instruction \<in> if_icmp_opcodes \<and> peek s 2 = Inr a \<and> peek s 1 = Inr b
           \<and> compare_two instruction (sint a) (sint b)
           \<and> s' = s\<lparr>pc := pc s + word_of_int (sign_extend_16 b1 b2), idx := idx s - 2\<rparr>"
    and "uint (pc s) + sign_extend_16 b1 b2 < 0
       \<or> uint (code_length m) \<le> uint (pc s) + sign_extend_16 b1 b2"
  shows "run (Suc (Suc n)) class m s = Inr (None, s')"
proof -
  have out: "\<not> uint (pc s + word_of_int (sign_extend_16 b1 b2)) < uint (code_length m)"
    using target_outside_leaves_loop [OF assms(1) _ _ assms(6)] sign_extend_16_range [of b1 b2]
    by simp
  from assms(5) have "step class m s = Inr (Next s') \<and> pc s' = pc s + word_of_int (sign_extend_16 b1 b2)"
  proof (elim disjE conjE)
    assume "instruction = i_goto" "s' = s\<lparr>pc := pc s + word_of_int (sign_extend_16 b1 b2)\<rparr>"
    with assms(2-4) show ?thesis by (simp add: goto_eq)
  next
    assume "instruction \<in> if_zero_opcodes" "peek s 1 = Inr v" "compare_zero instruction (sint v)"
      "s' = s\<lparr>pc := pc s + word_of_int (sign_extend_16 b1 b2), idx := idx s - 1\<rparr>"
    with assms(2-4) show ?thesis by (simp add: if_zero_eq [where ?b1.0 = b1 and ?b2.0 = b2])
  next
    assume "instruction \<in> if_icmp_opcodes" "peek s 2 = Inr a" "peek s 1 = Inr b"
      "compare_two instruction (sint a) (sint b)"
      "s' = s\<lparr>pc := pc s + word_of_int (sign_extend_16 b1 b2), idx := idx s - 2\<rparr>"
    with assms(2-4) show ?thesis by (simp add: if_icmp_eq [where ?b1.0 = b1 and ?b2.0 = b2])
  qed
  with out assms(1) show ?thesis
    by (intro run_leaves_loop) simp_all
qed

text \<open>
  The claim as stated fails: \<^verbatim>\<open>goto +5\<close> in a method of three code bytes computes the
  target 5, outside the code, and the run ends as a normal void return.
\<close>

theorem goto_outside_code_counterexample:
  "fetch \<lparr>max_stack = 0, max_locals = 0, code_length = 3, code = [0xa7, 0x00, 0x05], n_params = 0\<rparr> 0
     = Inr i_goto
   \<and> sign_extend_16 0x00 0x05 = 5
   \<and> \<not> 5 < uint (code_length
        \<lparr>max_stack = 0, max_locals = 0, code_length = 3, code = [0xa7, 0x00, 0x05], n_params = 0\<rparr>)
   \<and> execute 2 \<lparr>max_stack = 0, max_locals = 0, code_length = 3, code = [0xa7, 0x00, 0x05], n_params = 0\<rparr>
        [] \<lparr>constant_pool = [], methods = []\<rparr> [] []
     = Inr (None, [], [], [])"
  by code_simp

text \<open>\<^verbatim>\<open>ifeq -3\<close> at address 1 with 0 on the stack: the target \<open>-2\<close> wraps to \<open>2 ^ 64 - 2\<close>.\<close>

theorem branch_outside_code_returns_void_witness:
  "run (Suc (Suc 0)) \<lparr>constant_pool = [], methods = []\<rparr>
     \<lparr>max_stack = 1, max_locals = 0, code_length = 4, code = [0x00, 0x99, 0xff, 0xfd], n_params = 0\<rparr>
     \<lparr>pc = 1, idx = 1, stack = [0], locals = [], heap = [], printed = []\<rparr>
   = Inr (None, \<lparr>pc = 0xfffffffffffffffe, idx = 0, stack = [0], locals = [], heap = [], printed = []\<rparr>)"
  by (rule branch_outside_code_returns_void [where instruction = "0x99" and ?b1.0 = "0xff"
        and ?b2.0 = "0xfd" and v = 0 and a = 0 and b = 0]; code_simp)

section \<open>Shifts\<close>

subsection \<open>Shifts as arithmetic\<close>










subsection \<open>The shift instructions\<close>



section \<open>Division and remainder\<close>

lemma step_idiv:
  "fetch m (pc s) = Inr i_idiv \<Longrightarrow> step class m s = continue (binop (\<lambda>b. b \<noteq> 0) c_div s)"
  by (simp add: step_def opcode)

lemma step_irem:
  "fetch m (pc s) = Inr i_irem \<Longrightarrow> step class m s = continue (binop (\<lambda>b. b \<noteq> 0) c_rem s)"
  by (simp add: step_def opcode)

text \<open>
  What \<^verbatim>\<open>idiv\<close> and \<^verbatim>\<open>irem\<close> do wherever C defines it: a zero divisor fails the
  \<^verbatim>\<open>assert\<close>; otherwise, unless the operands are \<^verbatim>\<open>INT_MIN\<close> and \<open>-1\<close>, both are popped and
  the quotient (remainder) truncated towards zero is pushed.
\<close>

lemma idiv_irem_defined:
  assumes "fetch m (pc s) = Inr instruction" and "peek s 1 = Inr b" and "peek s 2 = Inr a"
  shows "(instruction = i_idiv \<or> instruction = i_irem) \<and> b = 0
           \<longrightarrow> step class m s = Inl Assertion_Failure"
    and "instruction = i_idiv \<and> b \<noteq> 0 \<and> \<not> (a = INT_MIN \<and> b = - 1) \<longrightarrow>
          step class m s = Inr (Next (s\<lparr>stack := (stack s)[unat (idx s - 2) :=
                 word_of_int (sint a sdiv sint b)], idx := idx s - 1, pc := pc s + 1\<rparr>))"
    and "instruction = i_irem \<and> b \<noteq> 0 \<and> \<not> (a = INT_MIN \<and> b = - 1) \<longrightarrow>
          step class m s = Inr (Next (s\<lparr>stack := (stack s)[unat (idx s - 2) :=
                 word_of_int (sint a smod sint b)], idx := idx s - 1, pc := pc s + 1\<rparr>))"
  using assms
  by (auto simp add: step_idiv step_irem binop_eq c_div_def c_rem_def continue_def)

text \<open>
  Claim C4 fails on the code at one input. With \<open>a = INT_MIN\<close> and \<open>b = -1\<close> the divisor is
  not zero, so the claim promises the two's-complement quotient; the source evaluates
  \<^verbatim>\<open>INT_MIN / -1\<close> on \<^verbatim>\<open>int32_t\<close>, which overflows and has no result in C (the division
  instruction of the usual hosts traps). The program is \<^verbatim>\<open>ldc #1; iconst_m1; idiv\<close>
  (resp. \<^verbatim>\<open>irem\<close>); \<^verbatim>\<open>invokevirtual; return\<close> with the integer constant \<open>-2147483648\<close>.
\<close>

theorem idiv_int_min_by_minus_one:
  "execute 5
     \<lparr>max_stack = 2, max_locals = 1, code_length = 8,
      code = [0x12, 0x01, 0x02, 0x6c, 0xb6, 0x00, 0x00, 0xb1], n_params = 1\<rparr>
     [0] \<lparr>constant_pool = [CONSTANT_Integer (- 2147483648)], methods = []\<rparr> [] []
   = Inl Undefined_Behaviour
   \<and> execute 5
     \<lparr>max_stack = 2, max_locals = 1, code_length = 8,
      code = [0x12, 0x01, 0x02, 0x70, 0xb6, 0x00, 0x00, 0xb1], n_params = 1\<rparr>
     [0] \<lparr>constant_pool = [CONSTANT_Integer (- 2147483648)], methods = []\<rparr> [] []
   = Inl Undefined_Behaviour"
  by code_simp

section \<open>Arrays\<close>

lemma sint_succ:
  assumes "sint (i :: int32_t) < 2147483647"
  shows "sint (i + 1) = sint i + 1"
proof -
  have "- 2147483648 \<le> sint i" using sint_ge [of i] by simp
  with assms show ?thesis
    by (simp add: sint_word_ariths signed_take_bit_int_eq_self)
qed

lemma sint_word_of_nat:
  assumes "k < 2 ^ 31"
  shows "sint (word_of_nat k :: int32_t) = int k"
proof -
  have "int k < 2147483648" using assms by simp
  then have "signed_take_bit 31 (int k) = int k"
    by (intro signed_take_bit_int_eq_self) simp_all
  moreover have "sint (word_of_int (int k) :: int32_t) = signed_take_bit 31 (int k)"
    by (simp only: sint_sbintrunc') simp
  moreover have "(word_of_nat k :: int32_t) = word_of_int (int k)"
    by simp
  ultimately show ?thesis by (simp only:)
qed

lemma step_newarray: "fetch m (pc s) = Inr i_newarray \<Longrightarrow> step class m s = continue (exec_newarray s)"
  by (simp add: step_def opcode)

lemma step_arraylength: "fetch m (pc s) = Inr i_arraylength \<Longrightarrow> step class m s = continue (exec_arraylength s)"
  by (simp add: step_def opcode)

lemma step_iastore: "fetch m (pc s) = Inr i_iastore \<Longrightarrow> step class m s = continue (exec_iastore s)"
  by (simp add: step_def opcode)

lemma step_iaload: "fetch m (pc s) = Inr i_iaload \<Longrightarrow> step class m s = continue (exec_iaload s)"
  by (simp add: step_def opcode)

lemma newarray_eq:
  assumes "fetch m (pc s) = Inr i_newarray" "peek s 1 = Inr n" "step class m s = Inr (Next s1)"
  shows "0 \<le> sint n \<and> n \<noteq> INT_MAX
     \<and> s1 = s\<lparr>stack := (stack s)[unat (idx s - 1) := word_of_nat (length (heap s))],
               heap := heap s @ [n # replicate (nat (sint n)) 0], pc := pc s + 2\<rparr>"
  using assms
  by (auto simp add: step_newarray exec_newarray_def continue_def heap_add_def wr_peeked
        split: if_splits)

lemma newarray_ok:
  assumes "fetch m (pc s) = Inr i_newarray" "peek s 1 = Inr n" "0 \<le> sint n" "n \<noteq> INT_MAX"
  shows "step class m s =
     Inr (Next (s\<lparr>stack := (stack s)[unat (idx s - 1) := word_of_nat (length (heap s))],
               heap := heap s @ [n # replicate (nat (sint n)) 0], pc := pc s + 2\<rparr>))"
  using assms
  by (simp add: step_newarray exec_newarray_def continue_def heap_add_def wr_peeked)

lemma heap_get_new:
  "length h < 2 ^ 31 \<Longrightarrow> heap_get (h @ [arr]) (word_of_nat (length h)) = Inr arr"
  by (simp add: heap_get_def rd_def sint_word_of_nat)

lemma arraylength_eq:
  assumes "fetch m (pc s) = Inr i_arraylength" "peek s 1 = Inr r" "heap_get (heap s) r = Inr (n # xs)"
  shows "step class m s = Inr (Next (s\<lparr>stack := (stack s)[unat (idx s - 1) := n], pc := pc s + 1\<rparr>))"
  using assms by (simp add: step_arraylength exec_arraylength_def continue_def rd_def wr_peeked)

lemma iastore_eq:
  assumes "fetch m (pc s) = Inr i_iastore" "peek s 3 = Inr r" "peek s 2 = Inr i" "peek s 1 = Inr v"
    "heap_get (heap s) r = Inr arr" "0 \<le> sint i" "sint i + 1 < int (length arr)" "sint i < 2147483647"
  shows "step class m s = Inr (Next (s\<lparr>heap := (heap s)[nat (sint r) := arr[nat (sint i + 1) := v]],
            pc := pc s + 1, idx := idx s - 3\<rparr>))"
  using assms
  by (simp add: step_iastore exec_iastore_def continue_def heap_get_def rd_def wr_def sint_succ
        split: if_splits)

lemma iaload_eq:
  assumes "fetch m (pc s) = Inr i_iaload" "peek s 2 = Inr r" "peek s 1 = Inr i"
    "heap_get (heap s) r = Inr arr" "0 \<le> sint i" "sint i + 1 < int (length arr)" "sint i < 2147483647"
  shows "step class m s = Inr (Next (s\<lparr>stack := (stack s)[unat (idx s - 2) := arr ! nat (sint i + 1)],
            idx := idx s - 1, pc := pc s + 1\<rparr>))"
  using assms
  by (simp add: step_iaload exec_iaload_def continue_def rd_def wr_peeked sint_succ)


lemma in_bounds_unat:
  assumes "uint (x :: 'a :: len word) < int n"
  shows "unat x < n"
proof -
  have "nat (uint x) < n" by (subst nat_less_iff) (rule uint_ge_0, rule assms)
  then show ?thesis by (simp only: nat_uint_eq)
qed

lemma peek_after_update:
  "peek s k = Inr v \<Longrightarrow> stack s' = (stack s)[unat (idx s - k) := r] \<Longrightarrow> idx s' = idx s \<Longrightarrow>
   peek s' k = Inr r"
  by (auto simp add: peek_def rd_def in_bounds_unat split: if_splits)

lemma fresh_array_nth:
  assumes "0 \<le> sint (j :: int32_t)" "sint j < sint (n :: int32_t)"
  shows "((n # replicate (nat (sint n)) 0)[nat (sint (i :: int32_t) + 1) := v]) ! nat (sint j + 1)
           = (if sint i + 1 = sint j + 1 then v else (0 :: int32_t))"
    and "(n # replicate (nat (sint n)) 0) ! nat (sint j + 1) = (0 :: int32_t)"
    and "sint j + 1 < int (length (n # replicate (nat (sint n)) (0 :: int32_t)))"
    and "sint j < 2147483647"
proof -
  have j: "nat (sint j + 1) = Suc (nat (sint j))" using assms by (simp add: nat_add_distrib)
  have lt: "nat (sint j) < nat (sint n)" using assms by simp
  show z: "(n # replicate (nat (sint n)) 0) ! nat (sint j + 1) = (0 :: int32_t)"
    using lt by (simp add: j)
  show b: "sint j + 1 < int (length (n # replicate (nat (sint n)) (0 :: int32_t)))"
    using assms by simp
  show "sint j < 2147483647" using assms sint_lt [of n] by simp
  show "((n # replicate (nat (sint n)) 0)[nat (sint i + 1) := v]) ! nat (sint j + 1)
           = (if sint i + 1 = sint j + 1 then v else (0 :: int32_t))"
  proof (cases "sint i + 1 = sint j + 1")
    case True
    then show ?thesis using lt by (simp add: j)
  next
    case False
    then have "nat (sint i + 1) \<noteq> nat (sint j + 1)" using assms by (simp add: j)
    then have "((n # replicate (nat (sint n)) 0)[nat (sint i + 1) := v]) ! nat (sint j + 1)
        = (n # replicate (nat (sint n)) 0) ! nat (sint j + 1)"
      by (rule nth_list_update_neq)
    with z False show ?thesis by (simp only: if_False)
  qed
qed

text \<open>
  What holds once \<^verbatim>\<open>newarray\<close> has popped \<open>n \<ge> 0\<close> and pushed a reference \<open>r\<close> (the step
  ends in \<open>s1\<close>, which by \<open>newarray_ok\<close> it does for every \<open>n\<close> from 0 to \<open>2 ^ 31 - 2\<close>):
  \<open>r\<close> is on top of the stack; an \<^verbatim>\<open>arraylength\<close> executed next replaces it by \<open>n\<close>;
  an \<^verbatim>\<open>iaload\<close> of \<open>(r, j)\<close> with \<open>0 \<le> j < n\<close> on the heap as \<^verbatim>\<open>newarray\<close> left it yields 0;
  and an \<^verbatim>\<open>iastore\<close> of \<open>(r, i, v)\<close> with \<open>0 \<le> i < n\<close> on that heap leaves a heap on which
  an \<^verbatim>\<open>iaload\<close> of \<open>(r, k)\<close> yields \<open>v\<close> for \<open>k = i\<close> and 0 for every other \<open>k\<close> in \<open>[0, n)\<close>.
  The states \<open>s2\<close>, \<open>s3\<close>, \<open>s5\<close> are any states of any method that hold that heap and
  have the operands on top of their stack. The heap holds fewer than \<open>2 ^ 31\<close> arrays, so
  that the index returned by \<^verbatim>\<open>heap_add\<close> fits the \<^verbatim>\<open>int32_t\<close> it is stored in.
\<close>

lemma newarray_then_access:
  assumes "fetch m (pc s) = Inr i_newarray" and "peek s 1 = Inr n" and "0 \<le> sint n"
    and "step class m s = Inr (Next s1)"
    and "length (heap s) < 2 ^ 31"
  shows "peek s1 1 = Inr (word_of_nat (length (heap s)))
     \<and> (fetch m1 (pc s1) = Inr i_arraylength \<longrightarrow>
          step class m1 s1 = Inr (Next (s1\<lparr>stack := (stack s1)[unat (idx s1 - 1) := n],
                                          pc := pc s1 + 1\<rparr>)))
     \<and> (heap s2 = heap s1 \<and> fetch m2 (pc s2) = Inr i_iaload
          \<and> peek s2 2 = Inr (word_of_nat (length (heap s))) \<and> peek s2 1 = Inr j
          \<and> 0 \<le> sint j \<and> sint j < sint n \<longrightarrow>
          step class m2 s2 = Inr (Next (s2\<lparr>stack := (stack s2)[unat (idx s2 - 2) := 0],
                                          idx := idx s2 - 1, pc := pc s2 + 1\<rparr>)))
     \<and> (heap s3 = heap s1 \<and> fetch m3 (pc s3) = Inr i_iastore
          \<and> peek s3 3 = Inr (word_of_nat (length (heap s))) \<and> peek s3 2 = Inr i \<and> peek s3 1 = Inr v
          \<and> 0 \<le> sint i \<and> sint i < sint n \<longrightarrow>
          (\<exists>h4. step class m3 s3 = Inr (Next (s3\<lparr>heap := h4, pc := pc s3 + 1, idx := idx s3 - 3\<rparr>))
            \<and> (heap s5 = h4 \<and> fetch m5 (pc s5) = Inr i_iaload
                 \<and> peek s5 2 = Inr (word_of_nat (length (heap s))) \<and> peek s5 1 = Inr k
                 \<and> 0 \<le> sint k \<and> sint k < sint n \<longrightarrow>
                 step class m5 s5 = Inr (Next (s5\<lparr>stack := (stack s5)[unat (idx s5 - 2) :=
                                                    (if k = i then v else 0)],
                                                 idx := idx s5 - 1, pc := pc s5 + 1\<rparr>)))))"
proof -
  let ?r = "word_of_nat (length (heap s)) :: int32_t"
  let ?arr = "n # replicate (nat (sint n)) 0"
  from newarray_eq [OF assms(1,2,4)]
  have s1: "s1 = s\<lparr>stack := (stack s)[unat (idx s - 1) := ?r], heap := heap s @ [?arr],
                    pc := pc s + 2\<rparr>"
    by simp
  have h1: "heap s1 = heap s @ [?arr]" by (simp add: s1)
  have r: "sint ?r = int (length (heap s))" using assms(5) by (rule sint_word_of_nat)
  have get1: "heap_get (heap s1) ?r = Inr ?arr"
    unfolding h1 using assms(5) by (rule heap_get_new)
  have p1: "peek s1 1 = Inr ?r"
    using assms(2) by (rule peek_after_update) (simp_all add: s1)
  have len: "fetch m1 (pc s1) = Inr i_arraylength \<longrightarrow>
      step class m1 s1 = Inr (Next (s1\<lparr>stack := (stack s1)[unat (idx s1 - 1) := n], pc := pc s1 + 1\<rparr>))"
    using p1 get1 by (auto intro: arraylength_eq)
  have fresh: "heap s2 = heap s1 \<and> fetch m2 (pc s2) = Inr i_iaload
          \<and> peek s2 2 = Inr ?r \<and> peek s2 1 = Inr j \<and> 0 \<le> sint j \<and> sint j < sint n \<longrightarrow>
          step class m2 s2 = Inr (Next (s2\<lparr>stack := (stack s2)[unat (idx s2 - 2) := 0],
                                          idx := idx s2 - 1, pc := pc s2 + 1\<rparr>))"
  proof (intro impI, elim conjE)
    assume a: "heap s2 = heap s1" "fetch m2 (pc s2) = Inr i_iaload" "peek s2 2 = Inr ?r"
      "peek s2 1 = Inr j" "0 \<le> sint j" "sint j < sint n"
    have g: "heap_get (heap s2) ?r = Inr ?arr" using get1 a(1) by simp
    show "step class m2 s2 = Inr (Next (s2\<lparr>stack := (stack s2)[unat (idx s2 - 2) := 0],
                                          idx := idx s2 - 1, pc := pc s2 + 1\<rparr>))"
      using iaload_eq [OF a(2,3,4) g a(5) fresh_array_nth(3) [OF a(5,6)] fresh_array_nth(4) [OF a(5,6)]]
        fresh_array_nth(2) [OF a(5,6)]
      by simp
  qed
  let ?h4 = "(heap s1)[nat (sint ?r) := ?arr[nat (sint i + 1) := v]]"
  have store: "heap s3 = heap s1 \<and> fetch m3 (pc s3) = Inr i_iastore
          \<and> peek s3 3 = Inr ?r \<and> peek s3 2 = Inr i \<and> peek s3 1 = Inr v
          \<and> 0 \<le> sint i \<and> sint i < sint n \<longrightarrow>
          (\<exists>h4. step class m3 s3 = Inr (Next (s3\<lparr>heap := h4, pc := pc s3 + 1, idx := idx s3 - 3\<rparr>))
            \<and> (heap s5 = h4 \<and> fetch m5 (pc s5) = Inr i_iaload
                 \<and> peek s5 2 = Inr ?r \<and> peek s5 1 = Inr k \<and> 0 \<le> sint k \<and> sint k < sint n \<longrightarrow>
                 step class m5 s5 = Inr (Next (s5\<lparr>stack := (stack s5)[unat (idx s5 - 2) :=
                                                    (if k = i then v else 0)],
                                                 idx := idx s5 - 1, pc := pc s5 + 1\<rparr>))))"
  proof (intro impI, elim conjE)
    assume a: "heap s3 = heap s1" "fetch m3 (pc s3) = Inr i_iastore" "peek s3 3 = Inr ?r"
      "peek s3 2 = Inr i" "peek s3 1 = Inr v" "0 \<le> sint i" "sint i < sint n"
    have g: "heap_get (heap s3) ?r = Inr ?arr" using get1 a(1) by simp
    have st: "step class m3 s3 = Inr (Next (s3\<lparr>heap := ?h4, pc := pc s3 + 1, idx := idx s3 - 3\<rparr>))"
      using iastore_eq [OF a(2,3,4,5) g a(6) fresh_array_nth(3) [OF a(6,7)] fresh_array_nth(4) [OF a(6,7)]]
        a(1)
      by simp
    have ld: "heap s5 = ?h4 \<and> fetch m5 (pc s5) = Inr i_iaload
                 \<and> peek s5 2 = Inr ?r \<and> peek s5 1 = Inr k \<and> 0 \<le> sint k \<and> sint k < sint n \<longrightarrow>
                 step class m5 s5 = Inr (Next (s5\<lparr>stack := (stack s5)[unat (idx s5 - 2) :=
                                                    (if k = i then v else 0)],
                                                 idx := idx s5 - 1, pc := pc s5 + 1\<rparr>))"
    proof (intro impI, elim conjE)
      assume b: "heap s5 = ?h4" "fetch m5 (pc s5) = Inr i_iaload" "peek s5 2 = Inr ?r"
        "peek s5 1 = Inr k" "0 \<le> sint k" "sint k < sint n"
      have g5: "heap_get (heap s5) ?r = Inr (?arr[nat (sint i + 1) := v])"
        by (simp add: b(1) h1 r heap_get_def rd_def)
      have bound: "sint k + 1 < int (length (?arr[nat (sint i + 1) := v]))"
        using fresh_array_nth(3) [OF b(5,6)] by (simp only: length_list_update)
      have eq: "(sint i + 1 = sint k + 1) = (k = i)"
      proof
        assume "sint i + 1 = sint k + 1"
        then have "(word_of_int (sint i) :: int32_t) = word_of_int (sint k)" by simp
        then show "k = i" by simp
      next
        assume "k = i"
        then show "sint i + 1 = sint k + 1" by simp
      qed
      show "step class m5 s5 = Inr (Next (s5\<lparr>stack := (stack s5)[unat (idx s5 - 2) :=
                                                    (if k = i then v else 0)],
                                                 idx := idx s5 - 1, pc := pc s5 + 1\<rparr>))"
        using iaload_eq [OF b(2,3,4) g5 b(5) bound fresh_array_nth(4) [OF b(5,6)]]
          fresh_array_nth(1) [OF b(5,6), of i v]
        by (simp only: eq)
    qed
    from st ld show "\<exists>h4. step class m3 s3 = Inr (Next (s3\<lparr>heap := h4, pc := pc s3 + 1, idx := idx s3 - 3\<rparr>))
            \<and> (heap s5 = h4 \<and> fetch m5 (pc s5) = Inr i_iaload
                 \<and> peek s5 2 = Inr ?r \<and> peek s5 1 = Inr k \<and> 0 \<le> sint k \<and> sint k < sint n \<longrightarrow>
                 step class m5 s5 = Inr (Next (s5\<lparr>stack := (stack s5)[unat (idx s5 - 2) :=
                                                    (if k = i then v else 0)],
                                                 idx := idx s5 - 1, pc := pc s5 + 1\<rparr>)))"
      by blast
  qed
  from p1 len fresh store show ?thesis by blast
qed


text \<open>
  \<^verbatim>\<open>newarray\<close> of length 3 on an empty heap issues reference 0; the length reads 3, element
  1 reads 0, and after storing 7 at index 2 element 2 reads 7.
\<close>

lemma newarray_then_access_example:
  "peek \<lparr>pc = 2, idx = 1, stack = [0, 0, 0], locals = [], heap = [[3, 0, 0, 0]], printed = []\<rparr> 1 = Inr 0
   \<and> step \<lparr>constant_pool = [], methods = []\<rparr>
        \<lparr>max_stack = 3, max_locals = 0, code_length = 5, code = [0xbc, 0x0a, 0xbe, 0x2e, 0x4f], n_params = 0\<rparr>
        \<lparr>pc = 2, idx = 1, stack = [0, 0, 0], locals = [], heap = [[3, 0, 0, 0]], printed = []\<rparr>
      = Inr (Next \<lparr>pc = 3, idx = 1, stack = [3, 0, 0], locals = [], heap = [[3, 0, 0, 0]], printed = []\<rparr>)
   \<and> step \<lparr>constant_pool = [], methods = []\<rparr>
        \<lparr>max_stack = 3, max_locals = 0, code_length = 5, code = [0xbc, 0x0a, 0xbe, 0x2e, 0x4f], n_params = 0\<rparr>
        \<lparr>pc = 3, idx = 2, stack = [0, 1, 0], locals = [], heap = [[3, 0, 0, 0]], printed = []\<rparr>
      = Inr (Next \<lparr>pc = 4, idx = 1, stack = [0, 1, 0], locals = [], heap = [[3, 0, 0, 0]], printed = []\<rparr>)
   \<and> step \<lparr>constant_pool = [], methods = []\<rparr>
        \<lparr>max_stack = 3, max_locals = 0, code_length = 5, code = [0xbc, 0x0a, 0xbe, 0x2e, 0x4f], n_params = 0\<rparr>
        \<lparr>pc = 3, idx = 2, stack = [0, 2, 0], locals = [], heap = [[3, 0, 0, 7]], printed = []\<rparr>
      = Inr (Next \<lparr>pc = 4, idx = 1, stack = [7, 2, 0], locals = [], heap = [[3, 0, 0, 7]], printed = []\<rparr>)"
proof -
  let ?C = "\<lparr>constant_pool = [], methods = []\<rparr>"
  let ?M = "\<lparr>max_stack = 3, max_locals = 0, code_length = 5, code = [0xbc, 0x0a, 0xbe, 0x2e, 0x4f], n_params = 0\<rparr>"
  let ?S = "\<lparr>pc = 0, idx = 1, stack = [3, 0, 0], locals = [], heap = [], printed = []\<rparr>"
  let ?S1 = "\<lparr>pc = 2, idx = 1, stack = [0, 0, 0], locals = [], heap = [[3, 0, 0, 0]], printed = []\<rparr>"
  let ?S2 = "\<lparr>pc = 3, idx = 2, stack = [0, 1, 0], locals = [], heap = [[3, 0, 0, 0]], printed = []\<rparr>"
  let ?S3 = "\<lparr>pc = 4, idx = 3, stack = [0, 2, 7], locals = [], heap = [[3, 0, 0, 0]], printed = []\<rparr>"
  let ?S4 = "\<lparr>pc = 5, idx = 0, stack = [0, 2, 7], locals = [], heap = [[3, 0, 0, 7]], printed = []\<rparr>"
  let ?S5 = "\<lparr>pc = 3, idx = 2, stack = [0, 2, 0], locals = [], heap = [[3, 0, 0, 7]], printed = []\<rparr>"
  let ?r = "word_of_nat (length (heap ?S)) :: int32_t"
  have h1: "fetch ?M (pc ?S) = Inr i_newarray" by code_simp
  have h2: "peek ?S 1 = Inr 3" by code_simp
  have h3: "0 \<le> sint (3 :: int32_t)" by simp
  have h4: "step ?C ?M ?S = Inr (Next ?S1)" by code_simp
  have h5: "length (heap ?S) < 2 ^ 31" by simp
  note c = newarray_then_access [where ?m1.0 = ?M and ?s2.0 = ?S2 and ?m2.0 = ?M and j = 1
      and ?s3.0 = ?S3 and ?m3.0 = ?M and i = 2 and v = 7 and ?s5.0 = ?S5 and ?m5.0 = ?M and k = 2,
      OF h1 h2 h3 h4 h5]
  have q1: "fetch ?M (pc ?S1) = Inr i_arraylength" by code_simp
  have q2: "heap ?S2 = heap ?S1 \<and> fetch ?M (pc ?S2) = Inr i_iaload
          \<and> peek ?S2 2 = Inr ?r \<and> peek ?S2 1 = Inr 1 \<and> 0 \<le> sint (1 :: int32_t)
          \<and> sint (1 :: int32_t) < sint (3 :: int32_t)" by code_simp
  have q3: "heap ?S3 = heap ?S1 \<and> fetch ?M (pc ?S3) = Inr i_iastore
          \<and> peek ?S3 3 = Inr ?r \<and> peek ?S3 2 = Inr 2 \<and> peek ?S3 1 = Inr 7
          \<and> 0 \<le> sint (2 :: int32_t) \<and> sint (2 :: int32_t) < sint (3 :: int32_t)" by code_simp
  have e3: "step ?C ?M ?S3 = Inr (Next ?S4)" by code_simp
  from c q3 obtain h4 where
    st: "step ?C ?M ?S3 = Inr (Next (?S3\<lparr>heap := h4, pc := pc ?S3 + 1, idx := idx ?S3 - 3\<rparr>))"
    and ld: "heap ?S5 = h4 \<and> fetch ?M (pc ?S5) = Inr i_iaload
                 \<and> peek ?S5 2 = Inr ?r \<and> peek ?S5 1 = Inr 2
                 \<and> 0 \<le> sint (2 :: int32_t) \<and> sint (2 :: int32_t) < sint (3 :: int32_t) \<longrightarrow>
         step ?C ?M ?S5 = Inr (Next (?S5\<lparr>stack := (stack ?S5)[unat (idx ?S5 - 2) :=
                                                    (if (2 :: int32_t) = 2 then 7 else 0)],
                                                 idx := idx ?S5 - 1, pc := pc ?S5 + 1\<rparr>))"
    by blast
  from st e3 have h4: "h4 = [[3, 0, 0, 7]]" by simp
  have q5: "fetch ?M (pc ?S5) = Inr i_iaload
                 \<and> peek ?S5 2 = Inr ?r \<and> peek ?S5 1 = Inr 2
                 \<and> 0 \<le> sint (2 :: int32_t) \<and> sint (2 :: int32_t) < sint (3 :: int32_t)" by code_simp
  from c have a1: "peek ?S1 1 = Inr ?r" by blast
  from c q1 have a2: "step ?C ?M ?S1 = Inr (Next (?S1\<lparr>stack := (stack ?S1)[unat (idx ?S1 - 1) := 3],
                                          pc := pc ?S1 + 1\<rparr>))" by blast
  from c q2 have a3: "step ?C ?M ?S2 = Inr (Next (?S2\<lparr>stack := (stack ?S2)[unat (idx ?S2 - 2) := 0],
                                          idx := idx ?S2 - 1, pc := pc ?S2 + 1\<rparr>))" by blast
  from ld q5 h4 have a5: "step ?C ?M ?S5 = Inr (Next (?S5\<lparr>stack := (stack ?S5)[unat (idx ?S5 - 2) :=
                                                    (if (2 :: int32_t) = 2 then 7 else 0)],
                                                 idx := idx ?S5 - 1, pc := pc ?S5 + 1\<rparr>))" by simp
  from a1 a2 a3 a5 show ?thesis by simp
qed


text \<open>
  Claim C6 fails on the code at one length. For \<open>n = 2 ^ 31 - 1\<close> the claim promises a
  reference whose \<^verbatim>\<open>arraylength\<close> is \<open>n\<close>. The source passes \<^verbatim>\<open>assert(stack[idx - 1] >= 0)\<close>
  and asks \<^verbatim>\<open>calloc\<close> for \<^verbatim>\<open>stack[idx - 1] + 1\<close> slots: the sum overflows \<^verbatim>\<open>int32_t\<close>, no such
  block exists, and \<^verbatim>\<open>new_arr[0] = stack[idx - 1]\<close> writes through a null pointer. No
  reference is pushed and nothing is printed. The program is
  \<^verbatim>\<open>ldc #1; newarray int; arraylength; invokevirtual; return\<close> with the integer constant
  \<open>2147483647\<close>; the second line is the \<^verbatim>\<open>newarray\<close> step alone.
\<close>

theorem newarray_int_max:
  "execute 5
     \<lparr>max_stack = 1, max_locals = 1, code_length = 9,
      code = [0x12, 0x01, 0xbc, 0x0a, 0xbe, 0xb6, 0x00, 0x00, 0xb1], n_params = 1\<rparr>
     [0] \<lparr>constant_pool = [CONSTANT_Integer 2147483647], methods = []\<rparr> [] []
   = Inl Undefined_Behaviour
   \<and> step \<lparr>constant_pool = [CONSTANT_Integer 2147483647], methods = []\<rparr>
     \<lparr>max_stack = 1, max_locals = 1, code_length = 9,
      code = [0x12, 0x01, 0xbc, 0x0a, 0xbe, 0xb6, 0x00, 0x00, 0xb1], n_params = 1\<rparr>
     \<lparr>pc = 2, idx = 1, stack = [2147483647], locals = [0], heap = [], printed = []\<rparr>
   = Inl Undefined_Behaviour"
  by code_simp

section \<open>Static calls\<close>

lemma unat_pred:
  assumes "0 < unat (ix :: size_t)"
  shows "unat (ix - 1) = unat ix - 1"
proof -
  have "ix \<noteq> 0" using assms by auto
  then show ?thesis by (rule unat_minus_one)
qed

lemma uint_in_bounds: "unat (x :: 'a :: len word) < n \<Longrightarrow> 0 \<le> uint x \<and> uint x < int n"
  by (simp flip: nat_uint_eq add: nat_less_iff)

lemma rd_unat: "unat (x :: 'a :: len word) < length xs \<Longrightarrow> rd xs (uint x) = Inr (xs ! unat x)"
  using uint_in_bounds [of x "length xs"] by (simp add: rd_def)

lemma wr_unat: "unat (x :: 'a :: len word) < length xs \<Longrightarrow> wr xs (uint x) v = Inr (xs[unat x := v])"
  using uint_in_bounds [of x "length xs"] by (simp add: wr_def)

lemma pop_args_ok:
  "p \<le> unat ix \<Longrightarrow> unat ix \<le> length st \<Longrightarrow> p \<le> length lq \<Longrightarrow>
   \<exists>lq'. pop_args p lq st ix = Inr (lq', ix - of_nat p) \<and> length lq' = length lq
     \<and> (\<forall>k<p. lq' ! k = st ! (unat ix - p + k))
     \<and> (\<forall>k. p \<le> k \<longrightarrow> k < length lq \<longrightarrow> lq' ! k = lq ! k)"
proof (induction p arbitrary: lq ix)
  case 0
  then show ?case by simp
next
  case (Suc i)
  have pos: "0 < unat ix" using Suc.prems by simp
  have pred: "unat (ix - 1) = unat ix - 1" using pos by (rule unat_pred)
  have rd: "rd st (uint (ix - 1)) = Inr (st ! (unat ix - 1))"
    using Suc.prems pos by (simp add: rd_unat pred)
  have wr: "wr lq (int i) (st ! (unat ix - 1)) = Inr (lq[i := st ! (unat ix - 1)])"
    using Suc.prems by (simp add: wr_def)
  have "\<exists>lq'. pop_args i (lq[i := st ! (unat ix - 1)]) st (ix - 1) = Inr (lq', ix - 1 - of_nat i)
     \<and> length lq' = length (lq[i := st ! (unat ix - 1)])
     \<and> (\<forall>k<i. lq' ! k = st ! (unat (ix - 1) - i + k))
     \<and> (\<forall>k. i \<le> k \<longrightarrow> k < length (lq[i := st ! (unat ix - 1)]) \<longrightarrow>
            lq' ! k = (lq[i := st ! (unat ix - 1)]) ! k)"
  proof (rule Suc.IH)
    show "i \<le> unat (ix - 1)" using Suc.prems pred by simp
    show "unat (ix - 1) \<le> length st" using Suc.prems pred by simp
    show "i \<le> length (lq[i := st ! (unat ix - 1)])" using Suc.prems by simp
  qed
  then obtain lq' where r: "pop_args i (lq[i := st ! (unat ix - 1)]) st (ix - 1) = Inr (lq', ix - 1 - of_nat i)"
    and len: "length lq' = length lq"
    and lo: "\<forall>k<i. lq' ! k = st ! (unat ix - 1 - i + k)"
    and hi: "\<forall>k. i \<le> k \<longrightarrow> k < length lq \<longrightarrow> lq' ! k = (lq[i := st ! (unat ix - 1)]) ! k"
    unfolding pred length_list_update by blast
  have "pop_args (Suc i) lq st ix = Inr (lq', ix - 1 - of_nat i)"
    by (simp only: pop_args.simps rd wr seq.simps r)
  then have "pop_args (Suc i) lq st ix = Inr (lq', ix - of_nat (Suc i))"
    by simp
  moreover have "\<forall>k<Suc i. lq' ! k = st ! (unat ix - Suc i + k)"
  proof (intro allI impI)
    fix k assume k: "k < Suc i"
    show "lq' ! k = st ! (unat ix - Suc i + k)"
    proof (cases "k = i")
      case True
      then have "lq' ! k = (lq[i := st ! (unat ix - 1)]) ! i" using hi Suc.prems by simp
      also have "\<dots> = st ! (unat ix - 1)" using Suc.prems by simp
      finally show ?thesis using True Suc.prems by simp
    next
      case False
      then have "k < i" using k by simp
      then show ?thesis using lo by simp
    qed
  qed
  moreover have "\<forall>k. Suc i \<le> k \<longrightarrow> k < length lq \<longrightarrow> lq' ! k = lq ! k"
    using hi by simp
  ultimately show ?case using len by blast
qed


lemma unat_sub_of_nat:
  assumes "p \<le> unat (ix :: size_t)"
  shows "unat (ix - of_nat p) = unat ix - p"
proof -
  have p: "unat (of_nat p :: size_t) = p" using assms by (rule le_unat_uoi)
  then have "(of_nat p :: size_t) \<le> ix" using assms by (simp add: word_le_nat_alt)
  then show ?thesis by (simp add: unat_sub p)
qed

lemma pop_args_marshalled:
  assumes "p = unat (get_number_of_parameters callee)"
    and "p \<le> unat (idx s)" and "unat (idx s) \<le> length (stack s)"
    and "p \<le> unat (max_locals callee)"
  shows "pop_args p (replicate (unat (max_locals callee)) 0) (stack s) (idx s)
         = Inr (marshalled_locals callee s, idx s - of_nat p)"
proof -
  let ?ml = "unat (max_locals callee)"
  let ?d = "unat (idx s)"
  from pop_args_ok [of p "idx s" "stack s" "replicate ?ml 0"] assms
  obtain lq' where r: "pop_args p (replicate ?ml 0) (stack s) (idx s) = Inr (lq', idx s - of_nat p)"
    and len: "length lq' = ?ml"
    and lo: "\<forall>k<p. lq' ! k = stack s ! (?d - p + k)"
    and hi: "\<forall>k. p \<le> k \<longrightarrow> k < ?ml \<longrightarrow> lq' ! k = 0"
    by auto
  have tk: "length (take p (drop (?d - p) (stack s))) = p" using assms by simp
  have "lq' = marshalled_locals callee s"
  proof (rule nth_equalityI)
    show "length lq' = length (marshalled_locals callee s)"
      using assms len tk by (simp add: marshalled_locals_def Let_def)
  next
    fix k assume "k < length lq'"
    then have k: "k < ?ml" using len by simp
    show "lq' ! k = marshalled_locals callee s ! k"
    proof (cases "k < p")
      case True
      then have "marshalled_locals callee s ! k = take p (drop (?d - p) (stack s)) ! k"
        using tk assms(1) by (simp add: marshalled_locals_def Let_def nth_append)
      also have "\<dots> = stack s ! (?d - p + k)" using True assms by simp
      finally show ?thesis using lo True by simp
    next
      case False
      then have "marshalled_locals callee s ! k = replicate (?ml - p) 0 ! (k - p)"
        using tk assms(1) by (simp add: marshalled_locals_def Let_def nth_append)
      also have "\<dots> = 0" using False k by simp
      finally show ?thesis using hi False k by simp
    qed
  qed
  with r show ?thesis by simp
qed

lemma marshalled_locals_nth:
  assumes "p = unat (get_number_of_parameters callee)"
    and "p \<le> unat (idx s)" and "unat (idx s) \<le> length (stack s)"
    and "p \<le> unat (max_locals callee)"
  shows "length (marshalled_locals callee s) = unat (max_locals callee)"
    and "\<forall>i<p. marshalled_locals callee s ! i = stack s ! (unat (idx s) - p + i)"
    and "\<forall>i. p \<le> i \<and> i < unat (max_locals callee) \<longrightarrow> marshalled_locals callee s ! i = 0"
proof -
  have tk: "length (take p (drop (unat (idx s) - p) (stack s))) = p" using assms by simp
  show "length (marshalled_locals callee s) = unat (max_locals callee)"
    using assms tk by (simp add: marshalled_locals_def Let_def)
  show "\<forall>i<p. marshalled_locals callee s ! i = stack s ! (unat (idx s) - p + i)"
    using assms tk by (simp add: marshalled_locals_def Let_def nth_append)
  show "\<forall>i. p \<le> i \<and> i < unat (max_locals callee) \<longrightarrow> marshalled_locals callee s ! i = 0"
    using assms tk by (auto simp add: marshalled_locals_def Let_def nth_append)
qed

lemma step_invokestatic:
  "fetch m (pc s) = Inr i_invokestatic \<Longrightarrow> step class m s = exec_invokestatic class m s"
  by (simp add: step_def opcode)

lemma invokestatic_eq:
  assumes "fetch m (pc s) = Inr i_invokestatic"
    and "fetch m (pc s + 1) = Inr b1" and "fetch m (pc s + 2) = Inr b2"
    and "find_method_from_index (imm16 b1 b2) class = Some callee"
    and "p = unat (get_number_of_parameters callee)"
    and "p \<le> unat (idx s)" and "unat (idx s) \<le> length (stack s)"
    and "p \<le> unat (max_locals callee)"
  shows "step class m s = Inr (Invoke callee (marshalled_locals callee s) (s\<lparr>idx := idx s - of_nat p\<rparr>))"
  using assms(1-4) pop_args_marshalled [OF assms(5-8)] assms(5)
  by (simp add: step_invokestatic exec_invokestatic_def)

lemma invoke_return_eq:
  assumes "p \<le> unat (idx s)"
  shows "invoke_return r callee_end (s\<lparr>idx := idx s - of_nat p\<rparr>) =
     (case r of
        None \<Rightarrow> Inr (s\<lparr>idx := idx s - of_nat p, heap := heap callee_end,
                        printed := printed callee_end, pc := pc s + 3\<rparr>)
      | Some v \<Rightarrow>
          if unat (idx s) - p < length (stack s)
          then Inr (s\<lparr>stack := (stack s)[unat (idx s) - p := v], idx := idx s - of_nat p + 1,
                       heap := heap callee_end, printed := printed callee_end, pc := pc s + 3\<rparr>)
          else Inl Undefined_Behaviour)"
proof (cases r)
  case None
  then show ?thesis by (simp add: invoke_return_def)
next
  case (Some v)
  show ?thesis
  proof (cases "unat (idx s) - p < length (stack s)")
    case True
    then have "unat (idx s - of_nat p) < length (stack s)"
      using assms by (simp add: unat_sub_of_nat)
    then have "wr (stack s) (uint (idx s - of_nat p)) v = Inr ((stack s)[unat (idx s) - p := v])"
      using assms by (simp add: wr_unat unat_sub_of_nat)
    then show ?thesis using Some True by (simp add: invoke_return_def push_def)
  next
    case False
    then have "\<not> uint (idx s - of_nat p) < int (length (stack s))"
      using assms in_bounds_unat [of "idx s - of_nat p" "length (stack s)"]
      by (auto simp add: unat_sub_of_nat)
    then show ?thesis using Some False by (simp add: invoke_return_def push_def wr_def)
  qed
qed


text \<open>
  Claim C1. Let \<^verbatim>\<open>invokestatic\<close> be executed in a frame whose stack holds at least
  \<open>p = param_count(callee)\<close> values (and let the callee declare at least \<open>p\<close> locals). Then
  the callee is run from \<^verbatim>\<open>pc = 0\<close> on locals of size \<^verbatim>\<open>max_locals\<close> in which slot \<open>i < p\<close>
  is the caller's stack slot \<open>depth - p + i\<close> (the deepest of the \<open>p\<close> values becomes
  \<open>locals[0]\<close>, the topmost \<open>locals[p - 1]\<close>) and every slot from \<open>p\<close> on is zero, on the
  caller's heap. When it returns, the caller goes on with \<open>p\<close> values popped, the returned
  value (if any) pushed in their place, \<^verbatim>\<open>pc\<close> advanced by 3, and the heap and printed
  lines the callee left. A push for which the stack array has no slot left is outside
  the array.
\<close>

theorem invokestatic_marshalling:
  assumes "uint (pc s) < uint (code_length m)"
    and "fetch m (pc s) = Inr i_invokestatic"
    and "fetch m (pc s + 1) = Inr b1" and "fetch m (pc s + 2) = Inr b2"
    and "find_method_from_index (imm16 b1 b2) class = Some callee"
    and "p = unat (get_number_of_parameters callee)"
    and "p \<le> unat (idx s)" and "unat (idx s) \<le> length (stack s)"
    and "p \<le> unat (max_locals callee)"
  shows "length (marshalled_locals callee s) = unat (max_locals callee)
     \<and> (\<forall>i<p. marshalled_locals callee s ! i = stack s ! (unat (idx s) - p + i))
     \<and> (\<forall>i. p \<le> i \<and> i < unat (max_locals callee) \<longrightarrow> marshalled_locals callee s ! i = 0)
     \<and> run (Suc n) class m s =
         (case run n class callee (entry callee (marshalled_locals callee s) (heap s) (printed s)) of
            Inl e \<Rightarrow> Inl e
          | Inr (method_call_result, callee_end) \<Rightarrow>
              (case method_call_result of
                 None \<Rightarrow>
                   run n class m (s\<lparr>idx := idx s - of_nat p, heap := heap callee_end,
                                    printed := printed callee_end, pc := pc s + 3\<rparr>)
               | Some v \<Rightarrow>
                   if unat (idx s) - p < length (stack s)
                   then run n class m (s\<lparr>stack := (stack s)[unat (idx s) - p := v],
                                         idx := idx s - of_nat p + 1, heap := heap callee_end,
                                         printed := printed callee_end, pc := pc s + 3\<rparr>)
                   else Inl Undefined_Behaviour))"
proof -
  note st = invokestatic_eq [OF assms(2-9)]
  have "run (Suc n) class m s =
         (case run n class callee (entry callee (marshalled_locals callee s) (heap s) (printed s)) of
            Inl e \<Rightarrow> Inl e
          | Inr (method_call_result, callee_end) \<Rightarrow>
              (case method_call_result of
                 None \<Rightarrow>
                   run n class m (s\<lparr>idx := idx s - of_nat p, heap := heap callee_end,
                                    printed := printed callee_end, pc := pc s + 3\<rparr>)
               | Some v \<Rightarrow>
                   if unat (idx s) - p < length (stack s)
                   then run n class m (s\<lparr>stack := (stack s)[unat (idx s) - p := v],
                                         idx := idx s - of_nat p + 1, heap := heap callee_end,
                                         printed := printed callee_end, pc := pc s + 3\<rparr>)
                   else Inl Undefined_Behaviour))"
    using assms(1)
    by (simp add: st invoke_return_eq [OF assms(7)] split: sum.splits option.splits prod.splits)
  with marshalled_locals_nth [OF assms(6-9)] show ?thesis by blast
qed

text \<open>
  \<^verbatim>\<open>main\<close> has pushed 6 and 7 and calls \<^verbatim>\<open>sub(a, b)\<close>, a method of three locals that returns
  \<open>a - b\<close>; then it prints the result. The line printed is \<open>-1\<close>.
\<close>

theorem invokestatic_marshalling_witness:
  "run (Suc 9)
     \<lparr>constant_pool = [CONSTANT_Other, CONSTANT_Methodref 0],
      methods = [\<lparr>max_stack = 2, max_locals = 3, code_length = 4,
                  code = [0x1a, 0x1b, 0x64, 0xac], n_params = 2\<rparr>]\<rparr>
     \<lparr>max_stack = 2, max_locals = 1, code_length = 11,
      code = [0x10, 0x06, 0x10, 0x07, 0xb8, 0x00, 0x02, 0xb6, 0x00, 0x00, 0xb1], n_params = 1\<rparr>
     \<lparr>pc = 4, idx = 2, stack = [6, 7], locals = [0], heap = [], printed = []\<rparr>
   = Inr (None, \<lparr>pc = 10, idx = 0, stack = [- 1, 7], locals = [0], heap = [], printed = [- 1]\<rparr>)
   \<and> marshalled_locals
       \<lparr>max_stack = 2, max_locals = 3, code_length = 4, code = [0x1a, 0x1b, 0x64, 0xac], n_params = 2\<rparr>
       \<lparr>pc = 4, idx = 2, stack = [6, 7], locals = [0], heap = [], printed = []\<rparr>
     = [6, 7, 0]"
proof -
  let ?sub = "\<lparr>max_stack = 2, max_locals = 3, code_length = 4,
                code = [0x1a, 0x1b, 0x64, 0xac], n_params = 2\<rparr>"
  let ?C = "\<lparr>constant_pool = [CONSTANT_Other, CONSTANT_Methodref 0], methods = [?sub]\<rparr>"
  let ?M = "\<lparr>max_stack = 2, max_locals = 1, code_length = 11,
      code = [0x10, 0x06, 0x10, 0x07, 0xb8, 0x00, 0x02, 0xb6, 0x00, 0x00, 0xb1], n_params = 1\<rparr>"
  let ?S = "\<lparr>pc = 4, idx = 2, stack = [6, 7], locals = [0], heap = [], printed = []\<rparr>"
  have h1: "uint (pc ?S) < uint (code_length ?M)" by code_simp
  have h2: "fetch ?M (pc ?S) = Inr i_invokestatic" by code_simp
  have h3: "fetch ?M (pc ?S + 1) = Inr 0x00" by code_simp
  have h4: "fetch ?M (pc ?S + 2) = Inr 0x02" by code_simp
  have h5: "find_method_from_index (imm16 0x00 0x02) ?C = Some ?sub" by code_simp
  have h6: "2 = unat (get_number_of_parameters ?sub)" by code_simp
  have h7: "2 \<le> unat (idx ?S)" by code_simp
  have h8: "unat (idx ?S) \<le> length (stack ?S)" by code_simp
  have h9: "2 \<le> unat (max_locals ?sub)" by code_simp
  note c = invokestatic_marshalling [OF h1 h2 h3 h4 h5 h6 h7 h8 h9, of 9]
  have e: "(case run 9 ?C ?sub (entry ?sub (marshalled_locals ?sub ?S) (heap ?S) (printed ?S)) of
            Inl e \<Rightarrow> Inl e
          | Inr (method_call_result, callee_end) \<Rightarrow>
              (case method_call_result of
                 None \<Rightarrow>
                   run 9 ?C ?M (?S\<lparr>idx := idx ?S - of_nat 2, heap := heap callee_end,
                                    printed := printed callee_end, pc := pc ?S + 3\<rparr>)
               | Some v \<Rightarrow>
                   if unat (idx ?S) - 2 < length (stack ?S)
                   then run 9 ?C ?M (?S\<lparr>stack := (stack ?S)[unat (idx ?S) - 2 := v],
                                         idx := idx ?S - of_nat 2 + 1, heap := heap callee_end,
                                         printed := printed callee_end, pc := pc ?S + 3\<rparr>)
                   else Inl Undefined_Behaviour))
     = Inr (None, \<lparr>pc = 10, idx = 0, stack = [- 1, 7], locals = [0], heap = [], printed = [- 1]\<rparr>)"
    by code_simp
  have l: "marshalled_locals ?sub ?S = [6, 7, 0]" by code_simp
  from c e l show ?thesis by (simp only:)
qed

section \<open>Operand-stack depth\<close>

lemma seq_Inr_iff: "seq r f = Inr y \<longleftrightarrow> (\<exists>x. r = Inr x \<and> f x = Inr y)"
  by (cases r) simp_all

lemma wr_length: "wr xs i v = Inr ys \<Longrightarrow> length ys = length xs"
  by (auto simp: wr_def split: if_splits)

lemma unat_succ_le: "unat (x + 1 :: size_t) \<le> unat x + 1"
proof -
  have "unat (x + 1) = (unat x + 1) mod 2 ^ 64"
    by (simp add: unat_word_ariths)
  then show ?thesis by (simp only: mod_less_eq_dividend)
qed

lemma peek_depth: "peek s k = Inr v \<Longrightarrow> length (stack s) = n \<Longrightarrow> unat (idx s - k) \<le> n"
  using peek_bounds [of s k v] in_bounds_unat [of "idx s - k" "length (stack s)"] by simp

lemma push_depth_ok: "push v s = Inr s' \<Longrightarrow> depth_ok k s \<Longrightarrow> depth_ok k (s'\<lparr>pc := a\<rparr>)"
proof -
  assume p: "push v s = Inr s'" and d: "depth_ok k s"
  from p obtain st where w: "wr (stack s) (uint (idx s)) v = Inr st"
    and s': "s' = s\<lparr>stack := st, idx := idx s + 1\<rparr>"
    by (auto simp: push_def seq_Inr_iff)
  from w have lt: "unat (idx s) < length (stack s)"
    by (auto simp: wr_def in_bounds_unat split: if_splits)
  have "unat (idx s + 1) \<le> length (stack s)"
    using unat_succ_le [of "idx s"] lt by simp
  with wr_length [OF w] d show ?thesis by (simp add: depth_ok_def s')
qed

lemma binop_depth_ok: "binop asserted f s = Inr s' \<Longrightarrow> depth_ok k s \<Longrightarrow> depth_ok k s'"
  by (auto simp: binop_def seq_Inr_iff depth_ok_def split: if_splits dest: wr_length peek_depth)

lemma exec_bipush_depth_ok: "exec_bipush m s = Inr s' \<Longrightarrow> depth_ok k s \<Longrightarrow> depth_ok k s'"
  by (auto simp: exec_bipush_def seq_Inr_iff dest: push_depth_ok)

lemma exec_iconst_depth_ok: "exec_iconst i s = Inr s' \<Longrightarrow> depth_ok k s \<Longrightarrow> depth_ok k s'"
  by (auto simp: exec_iconst_def seq_Inr_iff dest: push_depth_ok)

lemma exec_sipush_depth_ok: "exec_sipush m s = Inr s' \<Longrightarrow> depth_ok k s \<Longrightarrow> depth_ok k s'"
  by (auto simp: exec_sipush_def seq_Inr_iff dest: push_depth_ok)

lemma exec_ldc_depth_ok:
  assumes "exec_ldc class m s = Inr s'" and "depth_ok k s"
  shows "depth_ok k s'"
proof -
  from assms(1) obtain e where
    "(case e of CONSTANT_Integer bytes \<Rightarrow> seq (push bytes s) (\<lambda>s'. Inr (s'\<lparr>pc := pc s + 2\<rparr>))
      | _ \<Rightarrow> Inl Undefined_Behaviour) = Inr s'"
    by (auto simp: exec_ldc_def seq_Inr_iff)
  then show ?thesis using assms(2)
    by (cases e) (auto simp: seq_Inr_iff dest: push_depth_ok)
qed

lemma exec_ineg_depth_ok: "exec_ineg s = Inr s' \<Longrightarrow> depth_ok k s \<Longrightarrow> depth_ok k s'"
  by (auto simp: exec_ineg_def seq_Inr_iff depth_ok_def dest: wr_length)

lemma exec_load_depth_ok: "exec_load m s = Inr s' \<Longrightarrow> depth_ok k s \<Longrightarrow> depth_ok k s'"
  by (auto simp: exec_load_def seq_Inr_iff dest: push_depth_ok)

lemma exec_load_n_depth_ok: "exec_load_n i b s = Inr s' \<Longrightarrow> depth_ok k s \<Longrightarrow> depth_ok k s'"
  by (auto simp: exec_load_n_def seq_Inr_iff dest: push_depth_ok)

lemma exec_store_depth_ok: "exec_store m s = Inr s' \<Longrightarrow> depth_ok k s \<Longrightarrow> depth_ok k s'"
  by (auto simp: exec_store_def seq_Inr_iff depth_ok_def dest: peek_depth)

lemma exec_store_n_depth_ok: "exec_store_n i b s = Inr s' \<Longrightarrow> depth_ok k s \<Longrightarrow> depth_ok k s'"
  by (auto simp: exec_store_n_def seq_Inr_iff depth_ok_def dest: peek_depth)

lemma exec_iinc_depth_ok: "exec_iinc m s = Inr s' \<Longrightarrow> depth_ok k s \<Longrightarrow> depth_ok k s'"
  by (auto simp: exec_iinc_def seq_Inr_iff depth_ok_def)

lemma exec_if_depth_ok: "exec_if c m s = Inr s' \<Longrightarrow> depth_ok k s \<Longrightarrow> depth_ok k s'"
  by (auto simp: exec_if_def seq_Inr_iff depth_ok_def split: if_splits dest: peek_depth)

lemma exec_if_icmp_depth_ok: "exec_if_icmp c m s = Inr s' \<Longrightarrow> depth_ok k s \<Longrightarrow> depth_ok k s'"
  by (auto simp: exec_if_icmp_def seq_Inr_iff depth_ok_def split: if_splits dest: peek_depth)

lemma exec_goto_depth_ok: "exec_goto m s = Inr s' \<Longrightarrow> depth_ok k s \<Longrightarrow> depth_ok k s'"
  by (auto simp: exec_goto_def seq_Inr_iff depth_ok_def)

lemma exec_invokevirtual_depth_ok: "exec_invokevirtual s = Inr s' \<Longrightarrow> depth_ok k s \<Longrightarrow> depth_ok k s'"
  by (auto simp: exec_invokevirtual_def seq_Inr_iff depth_ok_def dest: peek_depth)

lemma exec_dup_depth_ok: "exec_dup s = Inr s' \<Longrightarrow> depth_ok k s \<Longrightarrow> depth_ok k s'"
  by (auto simp: exec_dup_def seq_Inr_iff dest: push_depth_ok)

lemma exec_newarray_depth_ok: "exec_newarray s = Inr s' \<Longrightarrow> depth_ok k s \<Longrightarrow> depth_ok k s'"
  by (auto simp: exec_newarray_def seq_Inr_iff depth_ok_def heap_add_def split: if_splits dest: wr_length)

lemma exec_arraylength_depth_ok: "exec_arraylength s = Inr s' \<Longrightarrow> depth_ok k s \<Longrightarrow> depth_ok k s'"
  by (auto simp: exec_arraylength_def seq_Inr_iff depth_ok_def dest: wr_length)

lemma exec_iastore_depth_ok: "exec_iastore s = Inr s' \<Longrightarrow> depth_ok k s \<Longrightarrow> depth_ok k s'"
  by (auto simp: exec_iastore_def seq_Inr_iff depth_ok_def dest: peek_depth)

lemma exec_iaload_depth_ok: "exec_iaload s = Inr s' \<Longrightarrow> depth_ok k s \<Longrightarrow> depth_ok k s'"
  by (auto simp: exec_iaload_def seq_Inr_iff depth_ok_def dest: wr_length peek_depth)

lemmas exec_depth_ok = binop_depth_ok exec_bipush_depth_ok exec_iconst_depth_ok exec_sipush_depth_ok
  exec_ldc_depth_ok exec_ineg_depth_ok exec_load_depth_ok exec_load_n_depth_ok exec_store_depth_ok
  exec_store_n_depth_ok exec_iinc_depth_ok exec_if_depth_ok exec_if_icmp_depth_ok exec_goto_depth_ok
  exec_invokevirtual_depth_ok exec_dup_depth_ok exec_newarray_depth_ok exec_arraylength_depth_ok
  exec_iastore_depth_ok exec_iaload_depth_ok


lemma step_Next_depth_ok:
  assumes "step class m s = Inr (Next s')" and "depth_ok k s"
  shows "depth_ok k s'"
proof -
  have upd: "\<And>a. depth_ok k (s\<lparr>pc := a\<rparr>)" using assms(2) by (simp add: depth_ok_def)
  have cont: "\<And>r. continue r = Inr (Next s') \<Longrightarrow> r = Inr s'"
    by (auto simp: continue_def seq_Inr_iff)
  have ret: "exec_return_value s \<noteq> Inr (Next s')"
    by (auto simp: exec_return_value_def seq_Inr_iff)
  have inv: "exec_invokestatic class m s \<noteq> Inr (Next s')"
    by (auto simp: exec_invokestatic_def seq_Inr_iff split: option.splits prod.splits)
  from assms(1) obtain instruction where "fetch m (pc s) = Inr instruction"
    by (auto simp: step_def seq_Inr_iff)
  with assms show ?thesis
    unfolding step_def
    by (auto simp: upd ret inv split: if_splits dest!: cont dest: exec_depth_ok)
qed


lemma pop_args_depth:
  "pop_args p lq st ix = Inr (lq', ix') \<Longrightarrow> unat ix \<le> length st \<Longrightarrow> unat ix' \<le> length st"
proof (induction p arbitrary: lq ix)
  case 0
  then show ?case by simp
next
  case (Suc i)
  from Suc.prems(1) obtain v lq1 where "rd st (uint (ix - 1)) = Inr v"
    and r: "pop_args i lq1 st (ix - 1) = Inr (lq', ix')"
    by (auto simp: seq_Inr_iff)
  then have "unat (ix - 1) \<le> length st"
    using in_bounds_unat [of "ix - 1" "length st"] by (auto simp: rd_def split: if_splits)
  with r show ?case by (rule Suc.IH)
qed

lemma step_Invoke_depth_ok:
  assumes "step class m s = Inr (Invoke callee lq s1)" and "depth_ok k s"
  shows "depth_ok k s1"
proof -
  have cont: "\<And>r. continue r \<noteq> Inr (Invoke callee lq s1)"
    by (auto simp: continue_def seq_Inr_iff)
  have ret: "exec_return_value s \<noteq> Inr (Invoke callee lq s1)"
    by (auto simp: exec_return_value_def seq_Inr_iff)
  from assms(1) obtain instruction where "fetch m (pc s) = Inr instruction"
    by (auto simp: step_def seq_Inr_iff)
  with assms(1) have "exec_invokestatic class m s = Inr (Invoke callee lq s1)"
    unfolding step_def by (auto simp: cont ret split: if_splits)
  then obtain p lq0 ix where "pop_args p lq0 (stack s) (idx s) = Inr (lq, ix)" and s1: "s1 = s\<lparr>idx := ix\<rparr>"
    by (auto simp: exec_invokestatic_def seq_Inr_iff split: option.splits)
  from pop_args_depth [OF this(1)] assms(2) s1 show ?thesis
    by (simp add: depth_ok_def)
qed

lemma invoke_return_depth_ok:
  assumes "invoke_return r callee_end s1 = Inr s2" and "depth_ok k s1"
  shows "depth_ok k s2"
proof -
  have d: "depth_ok k (s1\<lparr>heap := heap callee_end, printed := printed callee_end\<rparr>)"
    using assms(2) by (simp add: depth_ok_def)
  show ?thesis
  proof (cases r)
    case None
    with assms show ?thesis by (auto simp: invoke_return_def depth_ok_def)
  next
    case (Some v)
    with assms(1) d show ?thesis
      by (auto simp: invoke_return_def seq_Inr_iff dest: push_depth_ok)
  qed
qed

lemma entry_depth_ok: "depth_ok (unat (max_stack m)) (entry m ls h out)"
  by (simp add: depth_ok_def entry_def)

lemma boundaries_depth_ok:
  "depth_ok (unat (max_stack m)) s \<Longrightarrow> (m', s') \<in> set (boundaries n class m s) \<Longrightarrow>
   depth_ok (unat (max_stack m')) s'"
proof (induction n arbitrary: m s)
  case 0
  then show ?case by simp
next
  case (Suc n)
  show ?case
  proof (cases "(m', s') = (m, s)")
    case True
    with Suc.prems show ?thesis by simp
  next
    case False
    with Suc.prems(2) have lt: "uint (pc s) < uint (code_length m)"
      by (auto split: if_splits)
    show ?thesis
    proof (cases "step class m s")
      case (Inl e)
      with Suc.prems(2) False lt show ?thesis by simp
    next
      case (Inr a)
      show ?thesis
      proof (cases a)
        case (Next s1)
        with Inr Suc.prems(2) False lt have "(m', s') \<in> set (boundaries n class m s1)" by auto
        moreover have "depth_ok (unat (max_stack m)) s1"
          using Inr Next Suc.prems(1) by (auto intro: step_Next_depth_ok)
        ultimately show ?thesis by (intro Suc.IH)
      next
        case (Return v s1)
        with Inr Suc.prems(2) False lt show ?thesis by simp
      next
        case (Invoke callee lq s1)
        have d1: "depth_ok (unat (max_stack m)) s1"
          using Inr Invoke Suc.prems(1) by (auto intro: step_Invoke_depth_ok)
        let ?e = "entry callee lq (heap s1) (printed s1)"
        let ?rest = "case run n class callee ?e of
             Inl e \<Rightarrow> []
           | Inr (r, ce) \<Rightarrow>
               (case invoke_return r ce s1 of Inl e \<Rightarrow> [] | Inr s2 \<Rightarrow> boundaries n class m s2)"
        from Inr Invoke Suc.prems(2) False lt
        have "(m', s') \<in> set (boundaries n class callee ?e) \<or> (m', s') \<in> set ?rest"
          by auto
        then show ?thesis
        proof
          assume "(m', s') \<in> set (boundaries n class callee ?e)"
          with entry_depth_ok [of callee] show ?thesis by (intro Suc.IH)
        next
          assume rest: "(m', s') \<in> set ?rest"
          show ?thesis
          proof (cases "run n class callee ?e")
            case (Inl e)
            with rest show ?thesis by simp
          next
            case (Inr x)
            obtain r ce where x: "x = (r, ce)" by (cases x)
            show ?thesis
            proof (cases "invoke_return r ce s1")
              case (Inl e)
              with rest \<open>run n class callee ?e = Inr x\<close> x show ?thesis by simp
            next
              case (Inr s2)
              with rest \<open>run n class callee ?e = Inr x\<close> x
              have "(m', s') \<in> set (boundaries n class m s2)" by simp
              with invoke_return_depth_ok [OF Inr d1] show ?thesis by (intro Suc.IH)
            qed
          qed
        qed
      qed
    qed
  qed
qed

text \<open>
  Claim C5. At every instruction boundary of every activation that a run reaches (the
  run of \<^verbatim>\<open>main\<close> or of any method, as long as no step has failed; a step that reads or
  writes outside the stack array, the model's stack under- or overflow, fails), the
  operand-stack depth is at most \<^verbatim>\<open>max_stack\<close> of the method being executed. It is at least
  0 because \<^verbatim>\<open>idx\<close> is unsigned. This covers every instruction of the implemented set.
\<close>

theorem stack_depth_within_max_stack:
  assumes "(m', s') \<in> set (boundaries n class m (entry m ls h out))"
  shows "0 \<le> unat (idx s') \<and> unat (idx s') \<le> unat (max_stack m')"
  using boundaries_depth_ok [OF entry_depth_ok assms] by (simp add: depth_ok_def)


text \<open>
  \<^verbatim>\<open>main\<close> pushes 6 and 7 and calls \<^verbatim>\<open>sub\<close>; inside the callee, after its two loads, the
  depth is 2 and \<^verbatim>\<open>max_stack\<close> of the callee is 2.
\<close>

theorem stack_depth_within_max_stack_witness:
  "(\<lparr>max_stack = 2, max_locals = 3, code_length = 4, code = [0x1a, 0x1b, 0x64, 0xac], n_params = 2\<rparr>,
    \<lparr>pc = 2, idx = 2, stack = [6, 7], locals = [6, 7, 0], heap = [], printed = []\<rparr>)
   \<in> set (boundaries 10
       \<lparr>constant_pool = [CONSTANT_Other, CONSTANT_Methodref 0],
        methods = [\<lparr>max_stack = 2, max_locals = 3, code_length = 4,
                    code = [0x1a, 0x1b, 0x64, 0xac], n_params = 2\<rparr>]\<rparr>
       \<lparr>max_stack = 2, max_locals = 1, code_length = 11,
        code = [0x10, 0x06, 0x10, 0x07, 0xb8, 0x00, 0x02, 0xb6, 0x00, 0x00, 0xb1], n_params = 1\<rparr>
       (entry \<lparr>max_stack = 2, max_locals = 1, code_length = 11,
          code = [0x10, 0x06, 0x10, 0x07, 0xb8, 0x00, 0x02, 0xb6, 0x00, 0x00, 0xb1], n_params = 1\<rparr>
          [0] [] []))
   \<and> 0 \<le> unat (idx \<lparr>pc = 2, idx = 2, stack = [6, 7], locals = [6, 7, 0], heap = [], printed = []\<rparr>)
   \<and> unat (idx \<lparr>pc = 2, idx = 2, stack = [6, 7], locals = [6, 7, 0], heap = [], printed = []\<rparr>)
       \<le> unat (max_stack \<lparr>max_stack = 2, max_locals = 3, code_length = 4,
                             code = [0x1a, 0x1b, 0x64, 0xac], n_params = 2\<rparr>)"
proof -
  have h: "(\<lparr>max_stack = 2, max_locals = 3, code_length = 4, code = [0x1a, 0x1b, 0x64, 0xac], n_params = 2\<rparr>,
    \<lparr>pc = 2, idx = 2, stack = [6, 7], locals = [6, 7, 0], heap = [], printed = []\<rparr>)
   \<in> set (boundaries 10
       \<lparr>constant_pool = [CONSTANT_Other, CONSTANT_Methodref 0],
        methods = [\<lparr>max_stack = 2, max_locals = 3, code_length = 4,
                    code = [0x1a, 0x1b, 0x64, 0xac], n_params = 2\<rparr>]\<rparr>
       \<lparr>max_stack = 2, max_locals = 1, code_length = 11,
        code = [0x10, 0x06, 0x10, 0x07, 0xb8, 0x00, 0x02, 0xb6, 0x00, 0x00, 0xb1], n_params = 1\<rparr>
       (entry \<lparr>max_stack = 2, max_locals = 1, code_length = 11,
          code = [0x10, 0x06, 0x10, 0x07, 0xb8, 0x00, 0x02, 0xb6, 0x00, 0x00, 0xb1], n_params = 1\<rparr>
          [0] [] []))"
    by code_simp
  from h stack_depth_within_max_stack [OF h] show ?thesis by (simp only:) 
qed

section \<open>The iteration budget\<close>

lemma run_more_fuel:
  "run n class m s \<noteq> Inl Out_Of_Fuel \<Longrightarrow> run (n + k) class m s = run n class m s"
proof (induction n arbitrary: m s)
  case 0
  then show ?case by simp
next
  case (Suc n)
  show ?case
  proof (cases "uint (pc s) < uint (code_length m)")
    case False
    then show ?thesis by simp
  next
    case True
    show ?thesis
    proof (cases "step class m s")
      case (Inl e)
      with True show ?thesis by simp
    next
      case (Inr a)
      show ?thesis
      proof (cases a)
        case (Next s1)
        with Inr True Suc.prems have "run n class m s1 \<noteq> Inl Out_Of_Fuel" by simp
        then have "run (n + k) class m s1 = run n class m s1" by (rule Suc.IH)
        with Inr Next True show ?thesis by simp
      next
        case (Return v s1)
        with Inr True show ?thesis by simp
      next
        case (Invoke callee lq s1)
        let ?e = "entry callee lq (heap s1) (printed s1)"
        have c: "run n class callee ?e \<noteq> Inl Out_Of_Fuel"
          using Inr Invoke True Suc.prems by (auto split: sum.splits)
        then have ce: "run (n + k) class callee ?e = run n class callee ?e" by (rule Suc.IH)
        show ?thesis
        proof (cases "run n class callee ?e")
          case (Inl e)
          with Inr Invoke True ce show ?thesis by simp
        next
          case r: (Inr x)
          obtain res cend where x: "x = (res, cend)" by (cases x)
          show ?thesis
          proof (cases "invoke_return res cend s1")
            case (Inl e)
            with Inr Invoke True ce r x show ?thesis by simp
          next
            case s2: (Inr s2)
            with Inr Invoke True r x Suc.prems have "run n class m s2 \<noteq> Inl Out_Of_Fuel" by simp
            then have "run (n + k) class m s2 = run n class m s2" by (rule Suc.IH)
            with Inr Invoke True ce r x s2 show ?thesis by simp
          qed
        qed
      qed
    qed
  qed
qed

lemma run_fuel_independent:
  assumes "run n1 class m s \<noteq> Inl Out_Of_Fuel" and "run n2 class m s \<noteq> Inl Out_Of_Fuel"
  shows "run n1 class m s = run n2 class m s"
proof (cases "n1 \<le> n2")
  case True
  then obtain k where "n2 = n1 + k" using le_Suc_ex by blast
  with run_more_fuel [OF assms(1), of k] show ?thesis by simp
next
  case False
  then obtain k where "n1 = n2 + k" using le_Suc_ex [of n2 n1] by auto
  with run_more_fuel [OF assms(2), of k] show ?thesis by simp
qed

text \<open>
  The iteration budget is the one parameter of \<open>execute\<close> that the C function does not
  have. It does not influence an outcome: two evaluations that both come to an end, under
  whatever budgets, give the same result.
\<close>

lemma execute_fuel_independent:
  assumes "execute n1 method ls class h out = r1" and "execute n2 method ls class h out = r2"
    and "r1 \<noteq> Inl Out_Of_Fuel" and "r2 \<noteq> Inl Out_Of_Fuel"
  shows "r1 = r2"
proof -
  have "run n1 class method (entry method ls h out) \<noteq> Inl Out_Of_Fuel"
    using assms(1,3) by (auto simp: execute_def)
  moreover have "run n2 class method (entry method ls h out) \<noteq> Inl Out_Of_Fuel"
    using assms(2,4) by (auto simp: execute_def)
  ultimately have "run n1 class method (entry method ls h out) = run n2 class method (entry method ls h out)"
    by (rule run_fuel_independent)
  with assms(1,2) show ?thesis by (simp add: execute_def)
qed

end
